theory Spec2Isabelle
  imports Complex_Main "HOL-Library.Sublist"
begin

section \<open>Strings\<close>

text \<open>
  A JavaScript string is a sequence of UTF-16 code units.  A code unit is a natural number
  here, so that the white space class of \<^verbatim>\<open>\s\<close> and of \<^verbatim>\<open>trim()\<close>, which has members
  above U+00FF, is written out in full.  \<open>js\<close> turns a literal of the theory into such
  a string.  \<open>splitOn\<close>, \<open>joinWith\<close>, \<open>includesStr\<close>, \<open>startsWith\<close>, \<open>endsWith\<close>,
  \<open>trim\<close> and \<open>slice\<close> are \<^verbatim>\<open>split\<close>, \<^verbatim>\<open>join\<close>, \<^verbatim>\<open>includes\<close>, \<^verbatim>\<open>startsWith\<close>,
  a regular expression anchored by \<^verbatim>\<open>$\<close>, \<^verbatim>\<open>trim\<close> and \<^verbatim>\<open>slice\<close> with non-negative
  bounds.
\<close>

type_synonym jschar = nat
type_synonym jstring = "nat list"

definition js :: "string \<Rightarrow> jstring" where
  "js s = map of_char s"

definition slice :: "'a list \<Rightarrow> nat \<Rightarrow> nat \<Rightarrow> 'a list" where
  "slice xs i j = take (j - i) (drop i xs)"

definition isSpace :: "jschar \<Rightarrow> bool" where
  "isSpace c \<longleftrightarrow>
     c = 9 \<or> c = 10 \<or> c = 11 \<or> c = 12 \<or> c = 13 \<or> c = 32 \<or> c = 160 \<or> c = 5760
     \<or> (8192 \<le> c \<and> c \<le> 8202) \<or> c = 8232 \<or> c = 8233 \<or> c = 8239 \<or> c = 8287
     \<or> c = 12288 \<or> c = 65279"

definition trim :: "jstring \<Rightarrow> jstring" where
  "trim s = rev (dropWhile isSpace (rev (dropWhile isSpace s)))"

fun splitOn :: "jschar \<Rightarrow> jstring \<Rightarrow> jstring list" where
  "splitOn sep [] = [[]]"
| "splitOn sep (c # cs) =
     (if c = sep then [] # splitOn sep cs
      else (case splitOn sep cs of [] \<Rightarrow> [[c]] | l # ls \<Rightarrow> (c # l) # ls))"

fun joinWith :: "jstring \<Rightarrow> jstring list \<Rightarrow> jstring" where
  "joinWith sep [] = []"
| "joinWith sep [l] = l"
| "joinWith sep (l # ls) = l @ sep @ joinWith sep ls"

fun includesStr :: "jstring \<Rightarrow> jstring \<Rightarrow> bool" where
  "includesStr [] sub = (sub = [])"
| "includesStr (c # cs) sub = (prefix sub (c # cs) \<or> includesStr cs sub)"

definition startsWith :: "jstring \<Rightarrow> jstring \<Rightarrow> bool" where
  "startsWith s p = prefix p s"

definition endsWith :: "jstring \<Rightarrow> jstring \<Rightarrow> bool" where
  "endsWith s p = suffix p s"

section \<open>The document tree\<close>

text \<open>
  The tree the remark parser returns (mdast with the MDX and front-matter extensions),
  with the fields the code reads: \<^verbatim>\<open>type\<close>, \<^verbatim>\<open>name\<close>, \<^verbatim>\<open>attributes\<close>, \<^verbatim>\<open>value\<close>,
  \<^verbatim>\<open>position.start.line\<close>, \<^verbatim>\<open>position.end.line\<close> and \<^verbatim>\<open>children\<close>.  An absent field is
  \<open>None\<close> (an absent \<^verbatim>\<open>children\<close> array is the empty list: the walks iterate over
  nothing in both cases).  The value of an attribute is a string, an object of type
  \<^verbatim>\<open>mdxJsxAttributeValueExpression\<close> carrying its source text, or something else.
\<close>

datatype node_type =
    Root | Yaml | Toml | MdxjsEsm | Heading | Paragraph
  | MdxJsxFlowElement | MdxJsxTextElement | MdxFlowExpression | MdxTextExpression
  | OtherNode

datatype attribute_value = StringValue jstring | ValueExpression jstring | OtherValue

datatype attribute = Attribute (attr_name: "jstring option") (attr_value: "attribute_value option")

datatype node =
  Node (ntype: node_type) (nname: "jstring option") (attributes: "attribute list")
       (nvalue: "jstring option") (start_line: "nat option") (end_line: "nat option")
       (children: "node list")

text \<open>
  \<^verbatim>\<open>interface Voice { id: string; name: string; url?: string }\<close>
\<close>

record voice =
  vid :: jstring
  vname :: jstring
  vurl :: "jstring option"

section \<open>Values and errors\<close>

text \<open>
  A rejected promise or a thrown exception is the left summand of a result.  The errors are
  those of the parser, of gray-matter, of the speech service and of the storage backend,
  the \<^verbatim>\<open>TypeError\<close> of the language (a property read from \<^verbatim>\<open>null\<close>, a call of
  something that is not a function) and the \<^verbatim>\<open>SyntaxError\<close> of \<^verbatim>\<open>new RegExp\<close>.
\<close>

datatype error =
    MdxSyntaxError | FrontmatterError | SynthesisError | BackendError
  | TypeError | RegExpSyntaxError

text \<open>
  A value returned by \<^verbatim>\<open>JSON.parse\<close>.  A number is the value of the double, a rational
  (the code only compares a number with 0 and tests it for truth, so a negative zero is
  zero here); a literal beyond the range of a double reads as an infinity,
  \<open>JInfinity True\<close> the positive one.  An object is the list of its own properties, each
  key once.

  \<open>propertyOf v k\<close> is \<^verbatim>\<open>v.k\<close> for the two property names the code reads from an element
  of the voice array, \<^verbatim>\<open>id\<close> and \<^verbatim>\<open>url\<close>: a \<^verbatim>\<open>TypeError\<close> for \<^verbatim>\<open>null\<close>, the property of
  an object when it has one, \<^verbatim>\<open>undefined\<close> (\<open>None\<close>) otherwise (neither name is a property
  of a string, an array, a number or a boolean).  \<open>truthy\<close> is the conversion to a boolean.
\<close>

datatype json =
    JNull | JBool bool | JNumber rat | JInfinity bool | JString jstring
  | JArray "json list" | JObject "(jstring \<times> json) list"

definition propertyOf :: "json \<Rightarrow> jstring \<Rightarrow> error + json option" where
  "propertyOf v k =
     (case v of
        JNull \<Rightarrow> Inl TypeError
      | JObject ps \<Rightarrow> Inr (map_of ps k)
      | _ \<Rightarrow> Inr None)"


section \<open>Locating the narration block\<close>

text \<open>
  \<open>extractExistingAudioData\<close> walks the tree with two variables, \<^verbatim>\<open>foundHash\<close> and
  \<^verbatim>\<open>foundVoices\<close>.  On an expression node it applies
  \<^verbatim>\<open>/\/\*\s*speak-mintlify-hash:\s*([a-f0-9]+)\s*\*\//\<close> to the node's value: \<open>hashMatch\<close>
  tries each start position from the left, \<open>matchHashAt\<close> matches at one position (the
  classes of white space, hexadecimal digits and \<^verbatim>\<open>*\<close> are disjoint, so the greedy match
  is the only one).  On a component of the configured name it reads the attribute
  \<^verbatim>\<open>voices\<close>, and if its value is truthy it parses the JSON in it and stores whatever
  value that gives; a parse error (\<open>None\<close>) is caught and ignored.  Later matches overwrite
  earlier ones.
\<close>

record found =
  foundHash :: "jstring option"
  foundVoices :: json

definition isHex :: "jschar \<Rightarrow> bool" where
  "isHex c \<longleftrightarrow> (97 \<le> c \<and> c \<le> 102) \<or> (48 \<le> c \<and> c \<le> 57)"

definition stripPrefix :: "jstring \<Rightarrow> jstring \<Rightarrow> jstring option" where
  "stripPrefix p s = (if prefix p s then Some (drop (length p) s) else None)"

definition matchHashAt :: "jstring \<Rightarrow> jstring option" where
  "matchHashAt s =
     (case stripPrefix (js ''/*'') s of
        None \<Rightarrow> None
      | Some r1 \<Rightarrow>
          (case stripPrefix (js ''speak-mintlify-hash:'') (dropWhile isSpace r1) of
             None \<Rightarrow> None
           | Some r2 \<Rightarrow>
               (let r3 = dropWhile isSpace r2;
                    h = takeWhile isHex r3;
                    r4 = dropWhile isSpace (dropWhile isHex r3)
                in if h \<noteq> [] \<and> prefix (js ''*/'') r4 then Some h else None)))"

fun hashMatch :: "jstring \<Rightarrow> jstring option" where
  "hashMatch [] = matchHashAt []"
| "hashMatch (c # cs) =
     (case matchHashAt (c # cs) of Some h \<Rightarrow> Some h | None \<Rightarrow> hashMatch cs)"

definition truthyValue :: "attribute_value \<Rightarrow> bool" where
  "truthyValue v = (case v of StringValue s \<Rightarrow> s \<noteq> [] | _ \<Rightarrow> True)"

definition jsonSource :: "attribute_value \<Rightarrow> jstring" where
  "jsonSource v = (case v of StringValue s \<Rightarrow> s | ValueExpression e \<Rightarrow> e | OtherValue \<Rightarrow> [])"

definition visitAudio :: "(jstring \<Rightarrow> json option) \<Rightarrow> jstring \<Rightarrow> node \<Rightarrow> found \<Rightarrow> found" where
  "visitAudio jsonParse componentName n s =
     (let s1 = (if ntype n = MdxFlowExpression \<or> ntype n = MdxTextExpression then
                  (case hashMatch (case nvalue n of None \<Rightarrow> [] | Some v \<Rightarrow> v) of
                     Some h \<Rightarrow> s\<lparr>foundHash := Some h\<rparr>
                   | None \<Rightarrow> s)
                else s)
      in if (ntype n = MdxJsxFlowElement \<or> ntype n = MdxJsxTextElement)
            \<and> nname n = Some componentName then
           (case find (\<lambda>a. attr_name a = Some (js ''voices'')) (attributes n) of
              None \<Rightarrow> s1
            | Some a \<Rightarrow>
                (case attr_value a of
                   None \<Rightarrow> s1
                 | Some v \<Rightarrow>
                     if truthyValue v then
                       (case jsonParse (jsonSource v) of
                          None \<Rightarrow> s1
                        | Some voices \<Rightarrow> s1\<lparr>foundVoices := voices\<rparr>)
                     else s1))
         else s1)"

fun walkAudio :: "(jstring \<Rightarrow> json option) \<Rightarrow> jstring \<Rightarrow> node \<Rightarrow> found \<Rightarrow> found" where
  "walkAudio jsonParse componentName (Node t nm as v sl el cs) s =
     fold (walkAudio jsonParse componentName) cs
       (visitAudio jsonParse componentName (Node t nm as v sl el cs) s)"

fun preorder :: "node \<Rightarrow> node list" where
  "preorder (Node t nm as v sl el cs) = Node t nm as v sl el cs # concat (map preorder cs)"


section \<open>The platform\<close>

text \<open>
  Code outside the repository is a parameter of the model: the remark parser
  (\<^verbatim>\<open>unified().use(remarkParse).use(remarkGfm).use(remarkMdx).use(remarkFrontmatter)\<close>), the
  plugin that removes import/export nodes, the stringification to plain text
  (\<^verbatim>\<open>remarkUnlink\<close>, \<^verbatim>\<open>stripMarkdown\<close>, \<^verbatim>\<open>remarkStringify\<close>), gray-matter,
  \<^verbatim>\<open>JSON.parse\<close> (\<open>None\<close> when it throws) and \<^verbatim>\<open>JSON.stringify(voices, null, 2)\<close>, SHA-256
  in hexadecimal, \<^verbatim>\<open>toLowerCase\<close>, the path of \<^verbatim>\<open>new URL(url)\<close> (\<open>None\<close> when it throws)
  and the text-to-speech service.  Two operations of the language are parameters where the
  code can reach a case that is not written out below: \<open>regExpTest\<close> is
  \<^verbatim>\<open>new RegExp(source, 'g').test(text)\<close> for a source that holds a syntax character of its
  own, and \<open>coercedPositive\<close> is the comparison \<^verbatim>\<open>x > 0\<close> for a string, an array or an
  object \<open>x\<close>, with its conversion to a number.
\<close>

record platform =
  parseMDX :: "jstring \<Rightarrow> error + node"
  removeEsm :: "node \<Rightarrow> node"
  plainText :: "node \<Rightarrow> error + jstring"
  matter :: "jstring \<Rightarrow> error + jstring"
  jsonParse :: "jstring \<Rightarrow> json option"
  jsonStringify :: "voice list \<Rightarrow> jstring"
  sha256hex :: "jstring \<Rightarrow> jstring"
  toLowerCase :: "jstring \<Rightarrow> jstring"
  urlPathname :: "jstring \<Rightarrow> jstring option"
  synthesize :: "jstring \<Rightarrow> jstring \<Rightarrow> error + jstring"
  regExpTest :: "jstring \<Rightarrow> jstring \<Rightarrow> error + bool"
  coercedPositive :: "json \<Rightarrow> error + bool"

text \<open>
  After the walk, outside the \<^verbatim>\<open>try\<close> that guards the parse:
  \<^verbatim>\<open>
    if (foundVoices.length > 0) {
      return { hash: foundHash, voiceIds: foundVoices.map(v => v.id), voices: foundVoices };
    }
    return null;
  \<close>
  \<open>lengthOf\<close> is \<^verbatim>\<open>foundVoices.length\<close>: a \<^verbatim>\<open>TypeError\<close> for \<^verbatim>\<open>null\<close>, the length of an
  array or a string, the property \<^verbatim>\<open>length\<close> of an object when it has one, \<^verbatim>\<open>undefined\<close>
  (\<open>None\<close>) for a number, a boolean and an object without that property.  \<open>isPositive\<close>
  is the comparison with 0: false for \<^verbatim>\<open>undefined\<close> and \<^verbatim>\<open>null\<close>, the sign of a number,
  \<^verbatim>\<open>true > 0\<close>.  Only an array has a function \<^verbatim>\<open>map\<close>; \<open>mapIds\<close> is
  \<^verbatim>\<open>map(v => v.id)\<close> on its elements.
\<close>

record audio_data =
  hash :: "jstring option"
  voiceIds :: "json option list"
  voices :: "json list"

definition lengthOf :: "json \<Rightarrow> error + json option" where
  "lengthOf v =
     (case v of
        JNull \<Rightarrow> Inl TypeError
      | JString s \<Rightarrow> Inr (Some (JNumber (of_nat (length s))))
      | JArray xs \<Rightarrow> Inr (Some (JNumber (of_nat (length xs))))
      | JObject ps \<Rightarrow> Inr (map_of ps (js ''length''))
      | _ \<Rightarrow> Inr None)"

definition isPositive :: "'a platform_scheme \<Rightarrow> json option \<Rightarrow> error + bool" where
  "isPositive libs l =
     (case l of
        None \<Rightarrow> Inr False
      | Some JNull \<Rightarrow> Inr False
      | Some (JBool b) \<Rightarrow> Inr b
      | Some (JNumber r) \<Rightarrow> Inr (0 < r)
      | Some (JInfinity p) \<Rightarrow> Inr p
      | Some v \<Rightarrow> coercedPositive libs v)"

fun mapIds :: "json list \<Rightarrow> error + json option list" where
  "mapIds [] = Inr []"
| "mapIds (v # vs) =
     (case propertyOf v (js ''id'') of
        Inl e \<Rightarrow> Inl e
      | Inr i \<Rightarrow> (case mapIds vs of Inl e \<Rightarrow> Inl e | Inr ids \<Rightarrow> Inr (i # ids)))"

definition extractExistingAudioData ::
  "'a platform_scheme \<Rightarrow> jstring \<Rightarrow> jstring \<Rightarrow> error + audio_data option" where
  "extractExistingAudioData libs content componentName =
     (case parseMDX libs content of
        Inl e \<Rightarrow> Inl e
      | Inr ast \<Rightarrow>
          (let s = walkAudio (jsonParse libs) componentName ast
                     \<lparr>foundHash = None, foundVoices = JArray []\<rparr>
           in case lengthOf (foundVoices s) of
                Inl e \<Rightarrow> Inl e
              | Inr l \<Rightarrow>
                  (case isPositive libs l of
                     Inl e \<Rightarrow> Inl e
                   | Inr positive \<Rightarrow>
                       if positive then
                         (case foundVoices s of
                            JArray xs \<Rightarrow>
                              (case mapIds xs of
                                 Inl e \<Rightarrow> Inl e
                               | Inr ids \<Rightarrow>
                                   Inr (Some \<lparr>hash = foundHash s, voiceIds = ids,
                                               voices = xs\<rparr>))
                          | _ \<Rightarrow> Inl TypeError)
                       else Inr None)))"

section \<open>Injecting the narration block\<close>

text \<open>
  \<^verbatim>\<open>new RegExp(`<${componentName}[^>]*`, 'g').test(content)\<close>.  The component name comes
  from the configuration unchecked and is read as the source of a regular expression.  A
  name without a syntax character (\<^verbatim>\<open>^ $ \ . * + ? ( ) [ ] { } |\<close>) is literal text, and
  as the class \<^verbatim>\<open>[^>]*\<close> also matches the empty string the test is: the text contains
  \<^verbatim>\<open><Name\<close>.  For any other name the test is the platform's, and may throw.
\<close>

definition isSyntaxCharacter :: "jschar \<Rightarrow> bool" where
  "isSyntaxCharacter c \<longleftrightarrow>
     c = 94 \<or> c = 36 \<or> c = 92 \<or> c = 46 \<or> c = 42 \<or> c = 43 \<or> c = 63 \<or> c = 40 \<or> c = 41
     \<or> c = 91 \<or> c = 93 \<or> c = 123 \<or> c = 125 \<or> c = 124"

definition hasAudioComponent :: "'a platform_scheme \<Rightarrow> jstring \<Rightarrow> jstring \<Rightarrow> error + bool" where
  "hasAudioComponent libs content componentName =
     (if list_ex isSyntaxCharacter componentName
      then regExpTest libs (js ''<'' @ componentName @ js ''[^>]*'') content
      else Inr (includesStr content (js ''<'' @ componentName)))"

text \<open>
  \<open>findInsertionPoints\<close> walks the tree with three line numbers, all 0 at the start.
  A line number that is absent or 0 is falsy.
  \<^verbatim>\<open>
    if (node.type === 'yaml' || node.type === 'toml')
      if (node.position?.end?.line) frontmatterEndLine = node.position.end.line;
    if (node.type === 'mdxjsEsm')
      if (node.position?.end?.line)
        lastImportEndLine = Math.max(lastImportEndLine, node.position.end.line);
    if (!firstContentLine &&
        (node.type === 'heading' || node.type === 'paragraph' ||
         node.type === 'mdxJsxFlowElement') && node.position?.start?.line)
      firstContentLine = node.position.start.line;
    ...
    const importPos = lastImportEndLine > 0 ? lastImportEndLine : frontmatterEndLine;
    const componentPos = firstContentLine > 0 ? firstContentLine - 1 : importPos;
  \<close>
\<close>

record insertion_state =
  frontmatterEndLine :: nat
  lastImportEndLine :: nat
  firstContentLine :: nat

definition lineOf :: "nat option \<Rightarrow> nat" where
  "lineOf l = (case l of None \<Rightarrow> 0 | Some n \<Rightarrow> n)"

definition visitInsertion :: "node \<Rightarrow> insertion_state \<Rightarrow> insertion_state" where
  "visitInsertion n s =
     (let s1 = (if (ntype n = Yaml \<or> ntype n = Toml) \<and> lineOf (end_line n) \<noteq> 0
                then s\<lparr>frontmatterEndLine := lineOf (end_line n)\<rparr> else s);
          s2 = (if ntype n = MdxjsEsm \<and> lineOf (end_line n) \<noteq> 0
                then s1\<lparr>lastImportEndLine := max (lastImportEndLine s1) (lineOf (end_line n))\<rparr>
                else s1)
      in if firstContentLine s2 = 0
            \<and> (ntype n = Heading \<or> ntype n = Paragraph \<or> ntype n = MdxJsxFlowElement)
            \<and> lineOf (start_line n) \<noteq> 0
         then s2\<lparr>firstContentLine := lineOf (start_line n)\<rparr> else s2)"

fun walkInsertion :: "node \<Rightarrow> insertion_state \<Rightarrow> insertion_state" where
  "walkInsertion (Node t nm as v sl el cs) s =
     fold walkInsertion cs (visitInsertion (Node t nm as v sl el cs) s)"

definition insertionPoints :: "node \<Rightarrow> nat \<times> nat" where
  "insertionPoints ast =
     (let s = walkInsertion ast
                \<lparr>frontmatterEndLine = 0, lastImportEndLine = 0, firstContentLine = 0\<rparr>;
          importPos = (if 0 < lastImportEndLine s then lastImportEndLine s
                       else frontmatterEndLine s);
          componentPos = (if 0 < firstContentLine s then firstContentLine s - 1 else importPos)
      in (importPos, componentPos))"

definition findInsertionPoints :: "'a platform_scheme \<Rightarrow> jstring \<Rightarrow> error + nat \<times> nat" where
  "findInsertionPoints libs content =
     (case parseMDX libs content of Inl e \<Rightarrow> Inl e | Inr ast \<Rightarrow> Inr (insertionPoints ast))"

text \<open>
  \<^verbatim>\<open>lines.splice(i, 0, ...new)\<close> and \<^verbatim>\<open>lines.splice(i, n)\<close> for \<open>i \<ge> 0\<close>; an index past
  the end is clamped to the length, as \<open>take\<close> and \<open>drop\<close> do.  \<open>needsBlank\<close> is
  \<^verbatim>\<open>lines[i]?.trim() !== ''\<close>, which is true for an index outside the array.
\<close>

definition spliceInsert :: "'a list \<Rightarrow> nat \<Rightarrow> 'a list \<Rightarrow> 'a list" where
  "spliceInsert xs i new = take i xs @ new @ drop i xs"

definition spliceDelete :: "'a list \<Rightarrow> nat \<Rightarrow> nat \<Rightarrow> 'a list" where
  "spliceDelete xs i n = take i xs @ drop (i + n) xs"

definition needsBlank :: "jstring list \<Rightarrow> int \<Rightarrow> bool" where
  "needsBlank ls i =
     (if 0 \<le> i \<and> i < int (length ls) then trim (ls ! nat i) \<noteq> [] else True)"

text \<open>
  The line scan of the branch taken when the text already holds the component.  The four
  variables start at -1 (\<open>None\<close>); the loop stops at the first line that includes
  \<^verbatim>\<open>/>\<close> once a component start was seen.  The variable \<^verbatim>\<open>inOtherComponent\<close> of the source
  is written but never read, and is left out.
\<close>

record scan_state =
  componentStart :: "nat option"
  componentEnd :: "nat option"
  hashLine :: "nat option"
  lastImportLine :: "nat option"

fun scanLines :: "jstring \<Rightarrow> jstring list \<Rightarrow> nat \<Rightarrow> scan_state \<Rightarrow> scan_state" where
  "scanLines componentName [] i s = s"
| "scanLines componentName (raw # rest) i s =
     (let line = trim raw;
          s1 = (if startsWith line (js ''import '') then s\<lparr>lastImportLine := Some i\<rparr> else s);
          s2 = (if includesStr line (js ''speak-mintlify-hash:'')
                then s1\<lparr>hashLine := Some i\<rparr> else s1);
          s3 = (if includesStr raw (js ''<'' @ componentName)
                then s2\<lparr>componentStart := Some i\<rparr> else s2)
      in if componentStart s3 \<noteq> None \<and> includesStr raw (js ''/>'')
         then s3\<lparr>componentEnd := Some i\<rparr>
         else scanLines componentName rest (i + 1) s3)"

definition formatVoices :: "'a platform_scheme \<Rightarrow> voice list \<Rightarrow> jstring" where
  "formatVoices libs vs =
     joinWith [10]
       (case splitOn 10 (jsonStringify libs vs) of
          [] \<Rightarrow> []
        | l # rest \<Rightarrow> l # map (\<lambda>x. js ''  '' @ x) rest)"

definition hashCommentOf :: "jstring \<Rightarrow> jstring" where
  "hashCommentOf h = js ''{/* speak-mintlify-hash: '' @ h @ js '' */}''"

definition componentCodeOf :: "'a platform_scheme \<Rightarrow> jstring \<Rightarrow> voice list \<Rightarrow> jstring" where
  "componentCodeOf libs componentName vs =
     js ''<'' @ componentName @ js '' voices={'' @ formatVoices libs vs @ js ''} />''"

definition importStatementOf :: "jstring \<Rightarrow> jstring \<Rightarrow> jstring" where
  "importStatementOf componentName componentImport =
     js ''import { '' @ componentName @ js '' } from '' @ [39] @ componentImport @ [39] @ js '';''"

definition hasImportLine :: "jstring list \<Rightarrow> jstring \<Rightarrow> bool" where
  "hasImportLine ls componentName =
     list_ex (\<lambda>line. includesStr line (js ''import { '' @ componentName @ js '' }'')) ls"

text \<open>
  The branch for a component found by the line scan removes the old block (from the hash
  line, when there is one above the component) and inserts
  \<^verbatim>\<open>'', newHashComment, newComponent\<close> at \<^verbatim>\<open>lastImportLine + 1\<close>.  The branch for a fresh
  insertion is
  \<^verbatim>\<open>
    if (!hasImport) lines.splice(importPos, 0, importStatement);
    const adjustedComponentPos = hasImport ? componentPos : componentPos + 1;
    // Add blank line before component if needed
    if (lines[adjustedComponentPos - 1]?.trim() !== '')
      lines.splice(adjustedComponentPos, 0, '');
    lines.splice(adjustedComponentPos, 0, hashComment);
    lines.splice(adjustedComponentPos + 1, 0, componentCode);
    // Add blank line after component if needed
    if (lines[adjustedComponentPos + 2]?.trim() !== '')
      lines.splice(adjustedComponentPos + 2, 0, '');
  \<close>
\<close>

definition relocateLines ::
  "jstring list \<Rightarrow> scan_state \<Rightarrow> nat \<Rightarrow> nat \<Rightarrow> jstring \<Rightarrow> jstring \<Rightarrow> jstring list" where
  "relocateLines ls s cs ce newHashComment newComponent =
     (let removed = (case hashLine s of
                       Some h \<Rightarrow> if h < cs then spliceDelete ls h (ce - h + 1)
                                 else spliceDelete ls cs (ce - cs + 1)
                     | None \<Rightarrow> spliceDelete ls cs (ce - cs + 1));
          insertPos = (case lastImportLine s of None \<Rightarrow> 0 | Some l \<Rightarrow> l + 1)
      in spliceInsert removed insertPos [[], newHashComment, newComponent])"

definition insertLines ::
  "jstring list \<Rightarrow> bool \<Rightarrow> nat \<Rightarrow> nat \<Rightarrow> jstring \<Rightarrow> jstring \<Rightarrow> jstring \<Rightarrow> jstring list" where
  "insertLines ls hasImport importPos componentPos importStatement hashComment componentCode =
     (let l1 = (if \<not> hasImport then spliceInsert ls importPos [importStatement] else ls);
          adjustedComponentPos = (if hasImport then componentPos else componentPos + 1);
          l2 = (if needsBlank l1 (int adjustedComponentPos - 1)
                then spliceInsert l1 adjustedComponentPos [[]] else l1);
          l3 = spliceInsert l2 adjustedComponentPos [hashComment];
          l4 = spliceInsert l3 (adjustedComponentPos + 1) [componentCode]
      in if needsBlank l4 (int adjustedComponentPos + 2)
         then spliceInsert l4 (adjustedComponentPos + 2) [[]] else l4)"

definition defaultComponentImport :: jstring where
  "defaultComponentImport = js ''/snippets/audio-transcript.jsx''"

definition defaultComponentName :: jstring where
  "defaultComponentName = js ''AudioTranscript''"

definition resolveImport :: "jstring option \<Rightarrow> jstring" where
  "resolveImport optImport =
     (case optImport of None \<Rightarrow> defaultComponentImport | Some i \<Rightarrow> i)"

definition resolveName :: "jstring option \<Rightarrow> jstring" where
  "resolveName optName = (case optName of None \<Rightarrow> defaultComponentName | Some n \<Rightarrow> n)"

definition injectLines ::
  "'a platform_scheme \<Rightarrow> jstring \<Rightarrow> voice list \<Rightarrow> jstring \<Rightarrow> jstring option \<Rightarrow> jstring option
     \<Rightarrow> error + jstring list" where
  "injectLines libs mdxContent vs h optImport optName =
     (let componentImport = resolveImport optImport;
          componentName = resolveName optName;
          ls = splitOn 10 mdxContent;
          importStatement = importStatementOf componentName componentImport;
          hasImport = hasImportLine ls componentName;
          hashComment = hashCommentOf h;
          componentCode = componentCodeOf libs componentName vs;
          fresh = (case findInsertionPoints libs mdxContent of
                     Inl e \<Rightarrow> Inl e
                   | Inr (importPos, componentPos) \<Rightarrow>
                       Inr (insertLines ls hasImport importPos componentPos
                              importStatement hashComment componentCode))
      in case hasAudioComponent libs mdxContent componentName of
           Inl e \<Rightarrow> Inl e
         | Inr present \<Rightarrow>
             if present then
               (let s = scanLines componentName ls 0
                          \<lparr>componentStart = None, componentEnd = None, hashLine = None,
                           lastImportLine = None\<rparr>
                in case (componentStart s, componentEnd s) of
                     (Some cs, Some ce) \<Rightarrow>
                       Inr (relocateLines ls s cs ce hashComment componentCode)
                   | _ \<Rightarrow> fresh)
             else fresh)"

definition injectAudioComponent ::
  "'a platform_scheme \<Rightarrow> jstring \<Rightarrow> voice list \<Rightarrow> jstring \<Rightarrow> jstring option \<Rightarrow> jstring option
     \<Rightarrow> error + jstring" where
  "injectAudioComponent libs mdxContent vs h optImport optName =
     (case injectLines libs mdxContent vs h optImport optName of
        Inl e \<Rightarrow> Inl e
      | Inr ls \<Rightarrow> Inr (joinWith [10] ls))"


section \<open>Extracting the narration text\<close>

text \<open>
  The string post-processing of \<open>extractCleanText\<close>.  Each global replacement scans the
  string from the left; where the pattern matches, the replacement is emitted and the scan
  goes on after the match, otherwise the character is copied.
  \<^verbatim>\<open>
    cleanedText = cleanedText.replace(/\\([*_`~\[\](){}#+\-.!|])/g, '$1');
    cleanedText = cleanedText.replace(/[:,]\s*,/g, ',');
    cleanedText = cleanedText.replace(/,(\s*,)+/g, ',');
    cleanedText = cleanedText.replace(/:\s*,+\s*/g, ': ');
    cleanedText = cleanedText.replace(/:\s*\./g, '.');
    cleanedText = cleanedText.replace(/\n{3,}/g, '\n\n');
    return cleanedText.trim();
  \<close>
  They are \<open>unescapeMarkdown\<close>, \<open>collapseBeforeComma\<close>, \<open>collapseCommaRuns\<close>,
  \<open>colonCommas\<close>, \<open>colonPeriod\<close>, \<open>collapseNewlines\<close> and \<open>trim\<close>.
\<close>

definition isEscapable :: "jschar \<Rightarrow> bool" where
  "isEscapable c \<longleftrightarrow> c \<in> set (js ''*_`~[](){}#+-.!|'')"

fun unescapeMarkdown :: "jstring \<Rightarrow> jstring" where
  "unescapeMarkdown (a # b # rest) =
     (if a = 92 \<and> isEscapable b then b # unescapeMarkdown rest
      else a # unescapeMarkdown (b # rest))"
| "unescapeMarkdown xs = xs"

definition startsComma :: "jstring \<Rightarrow> bool" where
  "startsComma r = (case r of [] \<Rightarrow> False | x # _ \<Rightarrow> x = 44)"

function collapseBeforeComma :: "jstring \<Rightarrow> jstring" where
  "collapseBeforeComma [] = []"
| "collapseBeforeComma (c # cs) =
     (if (c = 58 \<or> c = 44) \<and> startsComma (dropWhile isSpace cs)
      then 44 # collapseBeforeComma (tl (dropWhile isSpace cs))
      else c # collapseBeforeComma cs)"
  by pat_completeness auto
termination
proof (relation "measure length")
  fix c :: jschar and cs :: jstring
  assume "(c = 58 \<or> c = 44) \<and> startsComma (dropWhile isSpace cs)"
  have "length (tl (dropWhile isSpace cs)) \<le> length cs"
    using length_dropWhile_le [of isSpace cs] by simp
  then show "(tl (dropWhile isSpace cs), c # cs) \<in> measure length"
    by simp
qed simp_all

function skipCommaGroups :: "jstring \<Rightarrow> jstring" where
  "skipCommaGroups s =
     (if startsComma (dropWhile isSpace s) then skipCommaGroups (tl (dropWhile isSpace s))
      else s)"
  by pat_completeness auto
termination
proof (relation "measure length")
  fix s :: jstring
  assume a: "startsComma (dropWhile isSpace s)"
  then obtain x r where xr: "dropWhile isSpace s = x # r"
    by (cases "dropWhile isSpace s") (simp_all add: startsComma_def)
  have "length (tl (dropWhile isSpace s)) < length (dropWhile isSpace s)"
    by (simp only: xr list.sel length_Cons lessI)
  also have "\<dots> \<le> length s"
    by (rule length_dropWhile_le)
  finally show "(tl (dropWhile isSpace s), s) \<in> measure length"
    by simp
qed simp


function collapseCommaRuns :: "jstring \<Rightarrow> jstring" where
  "collapseCommaRuns [] = []"
| "collapseCommaRuns (c # cs) =
     (if c = 44 \<and> startsComma (dropWhile isSpace cs)
      then 44 # collapseCommaRuns (skipCommaGroups cs)
      else c # collapseCommaRuns cs)"
  by pat_completeness auto
termination
proof (relation "measure length")
  fix c :: jschar and cs :: jstring
  have "length (skipCommaGroups s) \<le> length s" for s
  proof (induction s rule: skipCommaGroups.induct)
    case (1 s)
    show ?case
    proof (cases "startsComma (dropWhile isSpace s)")
      case True
      have "length (tl (dropWhile isSpace s)) \<le> length s"
        using length_dropWhile_le [of isSpace s] by simp
      with 1 [OF True] True show ?thesis
        by (subst skipCommaGroups.simps) simp
    next
      case False
      then show ?thesis
        by (subst skipCommaGroups.simps) simp
    qed
  qed
  then show "(skipCommaGroups cs, c # cs) \<in> measure length"
    by (simp add: le_imp_less_Suc)
qed simp_all

function colonCommas :: "jstring \<Rightarrow> jstring" where
  "colonCommas [] = []"
| "colonCommas (c # cs) =
     (if c = 58 \<and> startsComma (dropWhile isSpace cs)
      then 58 # 32 # colonCommas
             (dropWhile isSpace (dropWhile (\<lambda>x. x = 44) (dropWhile isSpace cs)))
      else c # colonCommas cs)"
  by pat_completeness auto
termination
proof (relation "measure length")
  fix c :: jschar and cs :: jstring
  have "length (dropWhile isSpace (dropWhile (\<lambda>x. x = 44) (dropWhile isSpace cs)))
          \<le> length (dropWhile (\<lambda>x. x = 44) (dropWhile isSpace cs))"
    by (rule length_dropWhile_le)
  also have "\<dots> \<le> length (dropWhile isSpace cs)"
    by (rule length_dropWhile_le)
  also have "\<dots> \<le> length cs"
    by (rule length_dropWhile_le)
  finally show "(dropWhile isSpace (dropWhile (\<lambda>x. x = 44) (dropWhile isSpace cs)), c # cs)
                  \<in> measure length"
    by (simp add: le_imp_less_Suc)
qed simp_all

definition startsPeriod :: "jstring \<Rightarrow> bool" where
  "startsPeriod r = (case r of [] \<Rightarrow> False | x # _ \<Rightarrow> x = 46)"

function colonPeriod :: "jstring \<Rightarrow> jstring" where
  "colonPeriod [] = []"
| "colonPeriod (c # cs) =
     (if c = 58 \<and> startsPeriod (dropWhile isSpace cs)
      then 46 # colonPeriod (tl (dropWhile isSpace cs))
      else c # colonPeriod cs)"
  by pat_completeness auto
termination
proof (relation "measure length")
  fix c :: jschar and cs :: jstring
  have "length (tl (dropWhile isSpace cs)) \<le> length cs"
    using length_dropWhile_le [of isSpace cs] by simp
  then show "(tl (dropWhile isSpace cs), c # cs) \<in> measure length"
    by simp
qed simp_all

function collapseNewlines :: "jstring \<Rightarrow> jstring" where
  "collapseNewlines [] = []"
| "collapseNewlines (c # cs) =
     (if c = 10 \<and> 2 \<le> length (takeWhile (\<lambda>x. x = 10) cs)
      then 10 # 10 # collapseNewlines (dropWhile (\<lambda>x. x = 10) cs)
      else c # collapseNewlines cs)"
  by pat_completeness auto
termination
proof (relation "measure length")
  fix c :: jschar and cs :: jstring
  show "(dropWhile (\<lambda>x. x = 10) cs, c # cs) \<in> measure length"
    using length_dropWhile_le [of "\<lambda>x. x = 10" cs] by simp
qed simp_all

definition postProcess :: "jstring \<Rightarrow> jstring" where
  "postProcess s =
     trim (collapseNewlines (colonPeriod (colonCommas (collapseCommaRuns
       (collapseBeforeComma (unescapeMarkdown s))))))"

text \<open>
  \<open>remarkRemoveJSX\<close> visits the tree and splices every child of type
  \<^verbatim>\<open>mdxJsxFlowElement\<close>, \<^verbatim>\<open>mdxJsxTextElement\<close>, \<^verbatim>\<open>mdxFlowExpression\<close> or
  \<^verbatim>\<open>mdxTextExpression\<close> out of its parent, going on at the same index; the root has no
  parent and stays.
\<close>

definition isJsxOrExpression :: "node \<Rightarrow> bool" where
  "isJsxOrExpression n \<longleftrightarrow>
     ntype n = MdxJsxFlowElement \<or> ntype n = MdxJsxTextElement
     \<or> ntype n = MdxFlowExpression \<or> ntype n = MdxTextExpression"

fun remarkRemoveJSX :: "node \<Rightarrow> node" where
  "remarkRemoveJSX (Node t nm as v sl el cs) =
     Node t nm as v sl el (map remarkRemoveJSX (filter (\<lambda>c. \<not> isJsxOrExpression c) cs))"

definition extractCleanText :: "'a platform_scheme \<Rightarrow> jstring \<Rightarrow> error + jstring" where
  "extractCleanText libs mdxContent =
     (case matter libs mdxContent of
        Inl e \<Rightarrow> Inl e
      | Inr content \<Rightarrow>
          (case parseMDX libs content of
             Inl e \<Rightarrow> Inl e
           | Inr tree \<Rightarrow>
               (case plainText libs (remarkRemoveJSX (removeEsm libs tree)) of
                  Inl e \<Rightarrow> Inl e
                | Inr cleanedText \<Rightarrow> Inr (postProcess cleanedText))))"

definition generateHash :: "'a platform_scheme \<Rightarrow> jstring \<Rightarrow> jstring" where
  "generateHash libs content = sha256hex libs content"


section \<open>Storage keys and the object store\<close>

text \<open>
  \<^verbatim>\<open>
    const slug = filePath.replace(/\.mdx$/, '').split('/').slice(-2).join('-').toLowerCase();
    const prefix = this.config.pathPrefix || 'audio';
    return `${prefix}/${slug}/${voiceId}.mp3`;
  \<close>
  and, in the uploader that namespaces by branch,
  \<^verbatim>\<open>`${prefix}/${this.branch}/${slug}/${voiceId}.mp3`\<close>.
\<close>

record s3config =
  publicUrl :: jstring
  pathPrefix :: "jstring option"

definition stripMdx :: "jstring \<Rightarrow> jstring" where
  "stripMdx filePath =
     (if endsWith filePath (js ''.mdx'') then take (length filePath - 4) filePath else filePath)"

definition lastTwo :: "'a list \<Rightarrow> 'a list" where
  "lastTwo xs = drop (length xs - 2) xs"

definition slugOf :: "'a platform_scheme \<Rightarrow> jstring \<Rightarrow> jstring" where
  "slugOf libs filePath =
     toLowerCase libs (joinWith (js ''-'') (lastTwo (splitOn 47 (stripMdx filePath))))"

definition prefixOf :: "'a s3config_scheme \<Rightarrow> jstring" where
  "prefixOf cfg = (case pathPrefix cfg of
                     None \<Rightarrow> js ''audio''
                   | Some p \<Rightarrow> if p = [] then js ''audio'' else p)"

definition generateKey ::
  "'a platform_scheme \<Rightarrow> 'b s3config_scheme \<Rightarrow> jstring \<Rightarrow> jstring \<Rightarrow> jstring" where
  "generateKey libs cfg filePath voiceId =
     prefixOf cfg @ js ''/'' @ slugOf libs filePath @ js ''/'' @ voiceId @ js ''.mp3''"

definition generateKeyBranch ::
  "'a platform_scheme \<Rightarrow> 'b s3config_scheme \<Rightarrow> jstring \<Rightarrow> jstring \<Rightarrow> jstring \<Rightarrow> jstring" where
  "generateKeyBranch libs cfg branch filePath voiceId =
     prefixOf cfg @ js ''/'' @ branch @ js ''/'' @ slugOf libs filePath @ js ''/'' @ voiceId
       @ js ''.mp3''"

definition stripTrailingSlash :: "jstring \<Rightarrow> jstring" where
  "stripTrailingSlash u = (if u \<noteq> [] \<and> last u = 47 then butlast u else u)"


text \<open>
  The object store is the collaborator behind \<^verbatim>\<open>this.client.send\<close>.  Its state is the
  list of keys it holds, in listing order, and the bulk delete requests it has received.
  A bulk delete removes the named keys and is rejected when it names more than
  \<open>maxDeleteBatch\<close> keys; a listing returns the keys under a prefix in pages of
  \<open>listPageSize\<close>, with a continuation token while keys remain.  \<open>listLoop\<close> is the
  \<^verbatim>\<open>do ... while (continuationToken)\<close> loop of \<open>listAllAudioFiles\<close>, \<open>deleteLoop\<close> the
  \<^verbatim>\<open>for (let i = 0; i < keys.length; i += batchSize)\<close> loop of \<open>deleteMultiple\<close>.
\<close>

record storage =
  objects :: "jstring list"
  deleteRequests :: "jstring list list"

definition maxDeleteBatch :: nat where
  "maxDeleteBatch = 1000"

definition sendDeleteObjects :: "storage \<Rightarrow> jstring list \<Rightarrow> error + storage" where
  "sendDeleteObjects st batch =
     (if maxDeleteBatch < length batch then Inl BackendError
      else Inr (st\<lparr>objects := filter (\<lambda>k. k \<notin> set batch) (objects st),
                   deleteRequests := deleteRequests st @ [batch]\<rparr>))"

definition sendPutObject :: "storage \<Rightarrow> jstring \<Rightarrow> storage" where
  "sendPutObject st key =
     (if key \<in> set (objects st) then st else st\<lparr>objects := objects st @ [key]\<rparr>)"





definition batchSize :: nat where
  "batchSize = 1000"

function deleteLoop :: "nat \<Rightarrow> jstring list \<Rightarrow> storage \<Rightarrow> error + storage" where
  "deleteLoop i keys st =
     (if i < length keys then
        (case sendDeleteObjects st (slice keys i (i + batchSize)) of
           Inl e \<Rightarrow> Inl e
         | Inr st' \<Rightarrow> deleteLoop (i + batchSize) keys st')
      else Inr st)"
  by pat_completeness auto
termination
  by (relation "measure (\<lambda>(i, keys, st). length keys - i)") (auto simp: batchSize_def)

definition deleteMultiple :: "jstring list \<Rightarrow> storage \<Rightarrow> error + storage" where
  "deleteMultiple keys st = (if length keys = 0 then Inr st else deleteLoop 0 keys st)"

definition uploadAudio ::
  "'a platform_scheme \<Rightarrow> 'b s3config_scheme \<Rightarrow> storage \<Rightarrow> jstring \<Rightarrow> jstring
     \<Rightarrow> jstring \<times> storage" where
  "uploadAudio libs cfg st filePath voiceId =
     (let key = generateKey libs cfg filePath voiceId
      in (stripTrailingSlash (publicUrl cfg) @ js ''/'' @ key, sendPutObject st key))"


section \<open>The generate and cleanup commands\<close>

text \<open>
  \<open>processFile\<close> is the body of the loop of \<open>generateCommand\<close> for one document: it
  returns the outcome (or the error the \<^verbatim>\<open>catch\<close> of the loop reports), the bytes of the
  file afterwards and the store afterwards.  The skip test is
  \<^verbatim>\<open>
    const hashMatches = existingData.hash === hash;
    const voicesMatch =
      existingData.voiceIds.length === config.voiceIds!.length &&
      config.voiceIds!.every(id => existingData.voiceIds.includes(id));
    if (hashMatches && voicesMatch) { ... reason: 'Content unchanged' ... continue; }
  \<close>
  A requested id is a string; \<^verbatim>\<open>includes\<close> finds it among the recorded values when one of
  them is that string.
  \<open>cleanupCommand\<close> scans the documents for the keys they reference, lists the store
  and deletes what is listed and not referenced:
  \<^verbatim>\<open>const orphanedKeys = allS3Keys.filter((key) => !expectedKeys.has(key));\<close>
\<close>

record config =
  configVoiceIds :: "jstring list"
  configVoiceNames :: "jstring list"
  s3PublicUrl :: jstring
  s3PathPrefix :: jstring
  componentImport :: jstring
  componentName :: jstring
  dryRun :: bool

definition s3Of :: "'a config_scheme \<Rightarrow> s3config" where
  "s3Of cfg = \<lparr>publicUrl = s3PublicUrl cfg, pathPrefix = Some (s3PathPrefix cfg)\<rparr>"

function showNat :: "nat \<Rightarrow> jstring" where
  "showNat n = (if n < 10 then [48 + n] else showNat (n div 10) @ [48 + n mod 10])"
  by pat_completeness auto
termination
  by (relation "measure id") auto

definition voiceNameAt :: "'a config_scheme \<Rightarrow> nat \<Rightarrow> jstring" where
  "voiceNameAt cfg idx =
     (if idx < length (configVoiceNames cfg) \<and> configVoiceNames cfg ! idx \<noteq> []
      then configVoiceNames cfg ! idx
      else js ''Voice '' @ showNat (idx + 1))"

definition voicesMatch :: "json option list \<Rightarrow> jstring list \<Rightarrow> bool" where
  "voicesMatch existingIds requestedIds \<longleftrightarrow>
     length existingIds = length requestedIds
     \<and> list_all (\<lambda>i. Some (JString i) \<in> set existingIds) requestedIds"

datatype outcome =
    NoExtractableText
  | ContentUnchanged "json list"
  | DryRun "voice list" jstring
  | Generated "voice list"

fun synthesizeAll ::
  "'a platform_scheme \<Rightarrow> 'b config_scheme \<Rightarrow> jstring \<Rightarrow> jstring \<Rightarrow> jstring list \<Rightarrow> storage
     \<Rightarrow> (jstring \<times> jstring) list \<Rightarrow> (error + (jstring \<times> jstring) list) \<times> storage" where
  "synthesizeAll libs cfg file cleanText [] st audioUrls = (Inr audioUrls, st)"
| "synthesizeAll libs cfg file cleanText (voiceId # rest) st audioUrls =
     (case synthesize libs cleanText voiceId of
        Inl e \<Rightarrow> (Inl e, st)
      | Inr buffer \<Rightarrow>
          (case uploadAudio libs (s3Of cfg) st file voiceId of
             (url, st') \<Rightarrow>
               synthesizeAll libs cfg file cleanText rest st' ((voiceId, url) # audioUrls)))"

definition mockVoices :: "'a platform_scheme \<Rightarrow> 'b config_scheme \<Rightarrow> jstring \<Rightarrow> voice list" where
  "mockVoices libs cfg file =
     map (\<lambda>(idx, i).
            \<lparr>vid = i, vname = voiceNameAt cfg idx,
             vurl = Some (stripTrailingSlash (s3PublicUrl cfg) @ js ''/'' @ s3PathPrefix cfg
                          @ js ''/'' @ slugOf libs file @ js ''/'' @ i @ js ''.mp3'')\<rparr>)
         (enumerate 0 (configVoiceIds cfg))"

definition uploadedVoices :: "'a config_scheme \<Rightarrow> (jstring \<times> jstring) list \<Rightarrow> voice list" where
  "uploadedVoices cfg audioUrls =
     map (\<lambda>(idx, i).
            \<lparr>vid = i, vname = voiceNameAt cfg idx,
             vurl = Some (case map_of audioUrls i of None \<Rightarrow> [] | Some u \<Rightarrow> u)\<rparr>)
         (enumerate 0 (configVoiceIds cfg))"

definition isUnchanged :: "audio_data option \<Rightarrow> jstring \<Rightarrow> jstring list \<Rightarrow> bool" where
  "isUnchanged existingData h requestedIds =
     (case existingData of
        None \<Rightarrow> False
      | Some d \<Rightarrow> hash d = Some h \<and> voicesMatch (voiceIds d) requestedIds)"

definition processFile ::
  "'a platform_scheme \<Rightarrow> 'b config_scheme \<Rightarrow> storage \<Rightarrow> jstring \<Rightarrow> jstring
     \<Rightarrow> (error + outcome) \<times> jstring \<times> storage" where
  "processFile libs cfg st file content =
     (case extractCleanText libs content of
        Inl e \<Rightarrow> (Inl e, content, st)
      | Inr cleanText \<Rightarrow>
          if trim cleanText = [] then (Inr NoExtractableText, content, st)
          else
            (let h = generateHash libs cleanText
             in case extractExistingAudioData libs content (componentName cfg) of
                  Inl e \<Rightarrow> (Inl e, content, st)
                | Inr existingData \<Rightarrow>
                    if isUnchanged existingData h (configVoiceIds cfg) then
                      (Inr (ContentUnchanged
                              (case existingData of None \<Rightarrow> [] | Some d \<Rightarrow> voices d)),
                       content, st)
                    else if dryRun cfg then
                      (case injectAudioComponent libs content (mockVoices libs cfg file) h
                              (Some (componentImport cfg)) (Some (componentName cfg)) of
                         Inl e \<Rightarrow> (Inl e, content, st)
                       | Inr updatedContent \<Rightarrow>
                           (Inr (DryRun (mockVoices libs cfg file) updatedContent), content, st))
                    else
                      (case synthesizeAll libs cfg file cleanText (configVoiceIds cfg) st [] of
                         (Inl e, st') \<Rightarrow> (Inl e, content, st')
                       | (Inr audioUrls, st') \<Rightarrow>
                           (case injectAudioComponent libs content (uploadedVoices cfg audioUrls) h
                                   (Some (componentImport cfg)) (Some (componentName cfg)) of
                              Inl e \<Rightarrow> (Inl e, content, st')
                            | Inr updatedContent \<Rightarrow>
                                (Inr (Generated (uploadedVoices cfg audioUrls)),
                                 updatedContent, st')))))"






section \<open>Notions of the specification\<close>





text \<open>
  The source text of the \<^verbatim>\<open>voices\<close> attribute of a node, when the node is a component of
  the configured name with such an attribute and the attribute is not empty; the values
  \<^verbatim>\<open>JSON.parse\<close> reads from these attributes, in document order (an attribute it rejects
  gives none).  A document has no component carrying a non-empty, parseable \<^verbatim>\<open>voices\<close>
  attribute when that list is empty.
\<close>

definition voicesSource :: "jstring \<Rightarrow> node \<Rightarrow> jstring option" where
  "voicesSource cname n =
     (if (ntype n = MdxJsxFlowElement \<or> ntype n = MdxJsxTextElement) \<and> nname n = Some cname
      then (case find (\<lambda>a. attr_name a = Some (js ''voices'')) (attributes n) of
              None \<Rightarrow> None
            | Some a \<Rightarrow>
                (case attr_value a of
                   None \<Rightarrow> None
                 | Some v \<Rightarrow> if truthyValue v then Some (jsonSource v) else None))
      else None)"

definition parsedOf :: "(jstring \<Rightarrow> json option) \<Rightarrow> jstring \<Rightarrow> node \<Rightarrow> json option" where
  "parsedOf parse cname n =
     (case voicesSource cname n of None \<Rightarrow> None | Some src \<Rightarrow> parse src)"

definition parsedVoices :: "(jstring \<Rightarrow> json option) \<Rightarrow> jstring \<Rightarrow> node \<Rightarrow> json list" where
  "parsedVoices parse cname ast = List.map_filter (parsedOf parse cname) (preorder ast)"

text \<open>
  The insertion lines as the specification words them, read off the nodes in document
  order.
\<close>

definition esmEndLines :: "node list \<Rightarrow> nat list" where
  "esmEndLines ns =
     map (\<lambda>n. lineOf (end_line n))
       (filter (\<lambda>n. ntype n = MdxjsEsm \<and> lineOf (end_line n) \<noteq> 0) ns)"

definition yamlEndLines :: "node list \<Rightarrow> nat list" where
  "yamlEndLines ns =
     map (\<lambda>n. lineOf (end_line n))
       (filter (\<lambda>n. (ntype n = Yaml \<or> ntype n = Toml) \<and> lineOf (end_line n) \<noteq> 0) ns)"

definition blockStartLines :: "node list \<Rightarrow> nat list" where
  "blockStartLines ns =
     map (\<lambda>n. lineOf (start_line n))
       (filter (\<lambda>n. (ntype n = Heading \<or> ntype n = Paragraph \<or> ntype n = MdxJsxFlowElement)
                     \<and> lineOf (start_line n) \<noteq> 0) ns)"

definition importEndLines :: "node \<Rightarrow> nat list" where
  "importEndLines ast = esmEndLines (preorder ast)"

definition frontmatterEndLines :: "node \<Rightarrow> nat list" where
  "frontmatterEndLines ast = yamlEndLines (preorder ast)"

definition contentStartLines :: "node \<Rightarrow> nat list" where
  "contentStartLines ast = blockStartLines (preorder ast)"

definition importLineSpec :: "node \<Rightarrow> nat" where
  "importLineSpec ast =
     (if importEndLines ast \<noteq> [] then Max (set (importEndLines ast))
      else if frontmatterEndLines ast \<noteq> [] then last (frontmatterEndLines ast)
      else 0)"

definition componentLineSpec :: "node \<Rightarrow> nat" where
  "componentLineSpec ast =
     (if contentStartLines ast \<noteq> [] then hd (contentStartLines ast) - 1
      else importLineSpec ast)"

text \<open>
  The value a recorded id has when it is the requested id \<open>i\<close>: that string.
\<close>

definition idValue :: "jstring \<Rightarrow> json option" where
  "idValue i = Some (JString i)"

text \<open>
  A result that is not a skip for lack of text or of change: an error, a dry-run preview
  or a generated block, the last two for the whole requested voice list.
\<close>

definition regenerates :: "'a config_scheme \<Rightarrow> error + outcome \<Rightarrow> bool" where
  "regenerates cfg r =
     (case r of
        Inl e \<Rightarrow> True
      | Inr NoExtractableText \<Rightarrow> False
      | Inr (ContentUnchanged vs) \<Rightarrow> False
      | Inr (DryRun vs updated) \<Rightarrow> dryRun cfg \<and> map vid vs = configVoiceIds cfg
      | Inr (Generated vs) \<Rightarrow> \<not> dryRun cfg \<and> map vid vs = configVoiceIds cfg)"


text \<open>
  The slug as the specification words it: drop the file extension (what follows the last
  period of the last path segment), take the last two segments, join them, lower-case.
\<close>

definition dropExtension :: "jstring \<Rightarrow> jstring" where
  "dropExtension filePath =
     (if 46 \<in> set (takeWhile (\<lambda>c. c \<noteq> 47) (rev filePath))
      then rev (tl (dropWhile (\<lambda>c. c \<noteq> 46) (rev filePath)))
      else filePath)"

definition slugSpec :: "'a platform_scheme \<Rightarrow> jstring \<Rightarrow> jstring" where
  "slugSpec libs filePath =
     toLowerCase libs (joinWith (js ''-'') (lastTwo (splitOn 47 (dropExtension filePath))))"

text \<open>
  The colon rewrite as the specification words it (a colon followed only by punctuation
  collapses to \<open>: \<close>), and the post-processing with it in the place of the two colon
  rewrites of the code.
\<close>

definition startsPunctuation :: "jstring \<Rightarrow> bool" where
  "startsPunctuation r = (case r of [] \<Rightarrow> False | x # _ \<Rightarrow> x = 44 \<or> x = 46)"

function colonPunctuation :: "jstring \<Rightarrow> jstring" where
  "colonPunctuation [] = []"
| "colonPunctuation (c # cs) =
     (if c = 58 \<and> startsPunctuation (dropWhile isSpace cs)
      then 58 # 32 # colonPunctuation
             (dropWhile isSpace (dropWhile (\<lambda>x. x = 44 \<or> x = 46) (dropWhile isSpace cs)))
      else c # colonPunctuation cs)"
  by pat_completeness auto
termination
proof (relation "measure length")
  fix c :: jschar and cs :: jstring
  have "length (dropWhile isSpace (dropWhile (\<lambda>x. x = 44 \<or> x = 46) (dropWhile isSpace cs)))
          \<le> length (dropWhile (\<lambda>x. x = 44 \<or> x = 46) (dropWhile isSpace cs))"
    by (rule length_dropWhile_le)
  also have "\<dots> \<le> length (dropWhile isSpace cs)"
    by (rule length_dropWhile_le)
  also have "\<dots> \<le> length cs"
    by (rule length_dropWhile_le)
  finally show "(dropWhile isSpace (dropWhile (\<lambda>x. x = 44 \<or> x = 46) (dropWhile isSpace cs)),
                 c # cs) \<in> measure length"
    by (simp add: le_imp_less_Suc)
qed simp_all

definition postProcessClaimed :: "jstring \<Rightarrow> jstring" where
  "postProcessClaimed s =
     trim (collapseNewlines (colonPunctuation (collapseCommaRuns
       (collapseBeforeComma (unescapeMarkdown s)))))"

section \<open>Sample documents and platforms\<close>

text \<open>
  Concrete inputs for the worked examples.  A table platform answers the parser, the JSON
  reader, the stringifier, the plain-text printer and the hash from finite tables, and
  rejects a document its parse table does not hold.  The sample documents use a component
  name without syntax characters and voice arrays, so that the two operations of the
  language that are parameters are never consulted.  \<open>jsonOfVoices\<close> is the value
  \<^verbatim>\<open>JSON.parse\<close> reads from the text \<^verbatim>\<open>JSON.stringify\<close> writes for a list of voices.
\<close>

definition jsonOfVoice :: "voice \<Rightarrow> json" where
  "jsonOfVoice v =
     JObject ([(js ''id'', JString (vid v)), (js ''name'', JString (vname v))]
              @ (case vurl v of None \<Rightarrow> [] | Some u \<Rightarrow> [(js ''url'', JString u)]))"

definition jsonOfVoices :: "voice list \<Rightarrow> json" where
  "jsonOfVoices vs = JArray (map jsonOfVoice vs)"

definition removeEsmNodes :: "node \<Rightarrow> node" where
  "removeEsmNodes n =
     Node (ntype n) (nname n) (attributes n) (nvalue n) (start_line n) (end_line n)
       (filter (\<lambda>c. ntype c \<noteq> MdxjsEsm) (children n))"

definition asciiLower :: "jschar \<Rightarrow> jschar" where
  "asciiLower c = (if 65 \<le> c \<and> c \<le> 90 then c + 32 else c)"

definition tablePlatform ::
  "(jstring \<times> node) list \<Rightarrow> (jstring \<times> json) list \<Rightarrow> (voice list \<times> jstring) list
     \<Rightarrow> (node \<times> jstring) list \<Rightarrow> (jstring \<times> jstring) list \<Rightarrow> platform" where
  "tablePlatform trees jsons strings texts hashes =
     \<lparr>parseMDX = (\<lambda>s. case map_of trees s of None \<Rightarrow> Inl MdxSyntaxError | Some t \<Rightarrow> Inr t),
      removeEsm = removeEsmNodes,
      plainText = (\<lambda>t. case map_of texts t of None \<Rightarrow> Inl MdxSyntaxError | Some s \<Rightarrow> Inr s),
      matter = Inr,
      jsonParse = map_of jsons,
      jsonStringify = (\<lambda>vs. case map_of strings vs of None \<Rightarrow> js ''[]'' | Some s \<Rightarrow> s),
      sha256hex = (\<lambda>s. case map_of hashes s of None \<Rightarrow> js ''00'' | Some h \<Rightarrow> h),
      toLowerCase = map asciiLower,
      urlPathname = (\<lambda>u. None),
      synthesize = (\<lambda>t v. Inr []),
      regExpTest = (\<lambda>source text. Inl RegExpSyntaxError),
      coercedPositive = (\<lambda>v. Inr False)\<rparr>"

definition sampleConfig :: config where
  "sampleConfig =
     \<lparr>configVoiceIds = [js ''v1''], configVoiceNames = [js ''A''],
      s3PublicUrl = js ''https://cdn.example.com'', s3PathPrefix = js ''audio'',
      componentImport = defaultComponentImport, componentName = defaultComponentName,
      dryRun = False\<rparr>"


definition voicesOf :: "jstring \<Rightarrow> voice list" where
  "voicesOf url = [\<lparr>vid = js ''v1'', vname = js ''A'', vurl = Some url\<rparr>]"

text \<open>
  \<^verbatim>\<open>JSON.stringify(voices, null, 2)\<close> for that list: one property to a line, two spaces
  to a level.
\<close>

definition voicesPretty :: "jstring \<Rightarrow> jstring" where
  "voicesPretty url =
     joinWith [10]
       [js ''['',
        js ''  {'',
        js ''    '' @ [34] @ js ''id'' @ [34] @ js '': '' @ [34] @ js ''v1'' @ [34] @ js '','',
        js ''    '' @ [34] @ js ''name'' @ [34] @ js '': '' @ [34] @ js ''A'' @ [34] @ js '','',
        js ''    '' @ [34] @ js ''url'' @ [34] @ js '': '' @ [34] @ url @ [34],
        js ''  }'',
        js '']'']"








text \<open>
  A document with a hash annotation and a component whose \<^verbatim>\<open>voices\<close> attribute is the
  given source text, above one paragraph; its tree; the tree the plain-text printer
  receives for it.
\<close>

definition annotatedDoc :: "jstring \<Rightarrow> jstring" where
  "annotatedDoc src =
     js ''{/* speak-mintlify-hash: deadbeef */}'' @ [10]
       @ js ''<AudioTranscript voices={'' @ src @ js ''} />'' @ [10, 10] @ js ''Hello''"

definition helloParagraph :: node where
  "helloParagraph =
     Node Paragraph None [] None (Some 4) (Some 4)
       [Node OtherNode None [] (Some (js ''Hello'')) (Some 4) (Some 4) []]"

definition annotatedTree :: "jstring \<Rightarrow> jstring \<Rightarrow> node" where
  "annotatedTree fingerprint src =
     Node Root None [] None (Some 1) (Some 4)
       [Node MdxFlowExpression None []
          (Some (js ''/* speak-mintlify-hash: '' @ fingerprint @ js '' */''))
          (Some 1) (Some 1) [],
        Node MdxJsxFlowElement (Some (js ''AudioTranscript''))
          [Attribute (Some (js ''voices'')) (Some (ValueExpression src))]
          None (Some 2) (Some 2) [],
        helloParagraph]"

definition helloRoot :: node where
  "helloRoot = Node Root None [] None (Some 1) (Some 4) [helloParagraph]"

definition staleDoc :: jstring where
  "staleDoc = annotatedDoc (js ''[]'')"

definition staleTree :: node where
  "staleTree = annotatedTree (js ''deadbeef'') (js ''[]'')"

definition staleLibs :: platform where
  "staleLibs =
     tablePlatform [(staleDoc, staleTree)] [(js ''[]'', JArray [])] []
       [(helloRoot, js ''Hello'' @ [10])] []"

definition nullDoc :: jstring where
  "nullDoc = annotatedDoc (js ''null'')"

definition nullTree :: node where
  "nullTree = annotatedTree (js ''deadbeef'') (js ''null'')"

definition nullLibs :: platform where
  "nullLibs =
     tablePlatform [(nullDoc, nullTree)] [(js ''null'', JNull)] []
       [(helloRoot, js ''Hello'' @ [10])] []"

definition scenarioDoc :: jstring where
  "scenarioDoc =
     js ''---'' @ [10] @ js ''title: X'' @ [10] @ js ''---'' @ [10] @ js ''## Hi'' @ [10]
       @ js ''Some *text*.'' @ [10]"

definition scenarioTree :: node where
  "scenarioTree =
     Node Root None [] None (Some 1) (Some 6)
       [Node Yaml None [] (Some (js ''title: X'')) (Some 1) (Some 3) [],
        Node Heading None [] None (Some 4) (Some 4)
          [Node OtherNode None [] (Some (js ''Hi'')) (Some 4) (Some 4) []],
        Node Paragraph None [] None (Some 5) (Some 5)
          [Node OtherNode None [] (Some (js ''Some '')) (Some 5) (Some 5) [],
           Node OtherNode None [] None (Some 5) (Some 5)
             [Node OtherNode None [] (Some (js ''text'')) (Some 5) (Some 5) []],
           Node OtherNode None [] (Some (js ''.'')) (Some 5) (Some 5) []]]"

definition scenarioUrl :: jstring where
  "scenarioUrl = js ''http://x/a.mp3''"

definition scenarioLibs :: platform where
  "scenarioLibs =
     tablePlatform [(scenarioDoc, scenarioTree)] []
       [(voicesOf scenarioUrl, voicesPretty scenarioUrl)] [] []"

definition voiceObject :: "jstring \<Rightarrow> jstring \<Rightarrow> jstring \<Rightarrow> jstring" where
  "voiceObject i n u =
     js ''{'' @ [34] @ js ''id'' @ [34] @ js '':'' @ [34] @ i @ [34] @ js '',''
       @ [34] @ js ''name'' @ [34] @ js '':'' @ [34] @ n @ [34] @ js '',''
       @ [34] @ js ''url'' @ [34] @ js '':'' @ [34] @ u @ [34] @ js ''}''"

definition twoVoices :: "voice list" where
  "twoVoices =
     [\<lparr>vid = js ''v1'', vname = js ''A'', vurl = Some (js ''https://cdn.example.com/audio/a/v1.mp3'')\<rparr>,
      \<lparr>vid = js ''v2'', vname = js ''B'', vurl = Some (js ''https://cdn.example.com/audio/a/v2.mp3'')\<rparr>]"

definition twoVoicesJson :: jstring where
  "twoVoicesJson =
     js ''['' @ voiceObject (js ''v1'') (js ''A'') (js ''https://cdn.example.com/audio/a/v1.mp3'')
       @ js '','' @ voiceObject (js ''v2'') (js ''B'') (js ''https://cdn.example.com/audio/a/v2.mp3'')
       @ js '']''"

text \<open>
  A document as a run for the voices \<open>v1\<close> and \<open>v2\<close> leaves it: the recorded fingerprint
  is the SHA-256 digest of its text, \<^verbatim>\<open>Hello\<close>.
\<close>

definition helloDigest :: jstring where
  "helloDigest = js ''185f8db32271fe25f561a6fc938b2e264306ec304eda518007d1764826381969''"

definition blockDoc :: jstring where
  "blockDoc =
     js ''{/* speak-mintlify-hash: '' @ helloDigest @ js '' */}'' @ [10]
       @ js ''<AudioTranscript voices={'' @ twoVoicesJson @ js ''} />'' @ [10, 10] @ js ''Hello''"

definition blockTree :: node where
  "blockTree = annotatedTree helloDigest twoVoicesJson"

definition blockLibs :: platform where
  "blockLibs =
     tablePlatform [(blockDoc, blockTree)] [(twoVoicesJson, jsonOfVoices twoVoices)] []
       [(helloRoot, js ''Hello'' @ [10])]
       [(js ''Hello'', helloDigest)]"

definition emptyStore :: storage where
  "emptyStore = \<lparr>objects = [], deleteRequests = []\<rparr>"

definition dupConfig :: config where
  "dupConfig = sampleConfig\<lparr>configVoiceIds := [js ''v1'', js ''v1''],
                            configVoiceNames := [js ''A'', js ''A'']\<rparr>"

definition pairConfig :: config where
  "pairConfig = sampleConfig\<lparr>configVoiceIds := [js ''v1'', js ''v2''],
                             configVoiceNames := [js ''A'', js ''B'']\<rparr>"

definition swappedConfig :: config where
  "swappedConfig = sampleConfig\<lparr>configVoiceIds := [js ''v2'', js ''v1''],
                                configVoiceNames := [js ''B'', js ''A'']\<rparr>"

definition plainLibs :: platform where
  "plainLibs = tablePlatform [] [] [] [] []"

definition defaultS3 :: s3config where
  "defaultS3 = \<lparr>publicUrl = js ''https://cdn.example.com'', pathPrefix = None\<rparr>"

definition emptyRoot :: node where
  "emptyRoot = Node Root None [] None (Some 1) (Some 1) []"

definition emptyLibs :: platform where
  "emptyLibs = tablePlatform [([], emptyRoot)] [] [] [(emptyRoot, [])] []"

definition noteText :: jstring where
  "noteText =
     [92] @ js ''*Note'' @ [92] @ js ''*: , ,x: .'' @ [10, 10, 10, 10] @ js ''y  ''"

text \<open>
  The component tag injection writes for that list, with the voices indented as
  \<open>formatVoices\<close> does, and the document the first run writes for the scenario of the
  specification.
\<close>

definition componentText :: jstring where
  "componentText =
     joinWith [10]
       [js ''<AudioTranscript voices={['',
        js ''    {'',
        js ''      '' @ [34] @ js ''id'' @ [34] @ js '': '' @ [34] @ js ''v1'' @ [34] @ js '','',
        js ''      '' @ [34] @ js ''name'' @ [34] @ js '': '' @ [34] @ js ''A'' @ [34] @ js '','',
        js ''      '' @ [34] @ js ''url'' @ [34] @ js '': '' @ [34] @ scenarioUrl @ [34],
        js ''    }'',
        js ''  ]} />'']"

definition importText :: jstring where
  "importText =
     js ''import { AudioTranscript } from '' @ [39] @ js ''/snippets/audio-transcript.jsx''
       @ [39] @ js '';''"

definition hashText :: jstring where
  "hashText = js ''{/* speak-mintlify-hash: deadbeef */}''"

definition scenarioInjected :: jstring where
  "scenarioInjected =
     joinWith [10]
       [js ''---'', js ''title: X'', js ''---'', importText, hashText, componentText,
        [], js ''## Hi'', js ''Some *text*.'', []]"

text \<open>
  Three documents without a narration block: one that imports the component in another
  layout than the one injection writes, one with an export below its heading, and one that
  shows the tag in a code fence.
\<close>

definition compactImport :: jstring where
  "compactImport =
     js ''import {AudioTranscript} from '' @ [39] @ js ''/snippets/audio-transcript.jsx''
       @ [39] @ js '';''"

definition importedDoc :: jstring where
  "importedDoc = compactImport @ [10, 10] @ js ''# Hi'' @ [10]"

definition importedTree :: node where
  "importedTree =
     Node Root None [] None (Some 1) (Some 4)
       [Node MdxjsEsm None [] (Some compactImport) (Some 1) (Some 1) [],
        Node Heading None [] None (Some 3) (Some 3)
          [Node OtherNode None [] (Some (js ''Hi'')) (Some 3) (Some 3) []]]"

definition importedLibs :: platform where
  "importedLibs =
     tablePlatform [(importedDoc, importedTree)] []
       [(voicesOf scenarioUrl, voicesPretty scenarioUrl)] [] []"

definition exportDoc :: jstring where
  "exportDoc =
     js ''# Hi'' @ [10, 10] @ js ''export const meta = 1;'' @ [10, 10] @ js ''Text'' @ [10]"

definition exportTree :: node where
  "exportTree =
     Node Root None [] None (Some 1) (Some 6)
       [Node Heading None [] None (Some 1) (Some 1)
          [Node OtherNode None [] (Some (js ''Hi'')) (Some 1) (Some 1) []],
        Node MdxjsEsm None [] (Some (js ''export const meta = 1;'')) (Some 3) (Some 3) [],
        Node Paragraph None [] None (Some 5) (Some 5)
          [Node OtherNode None [] (Some (js ''Text'')) (Some 5) (Some 5) []]]"

definition exportLibs :: platform where
  "exportLibs =
     tablePlatform [(exportDoc, exportTree)] []
       [(voicesOf scenarioUrl, voicesPretty scenarioUrl)] [] []"

definition fencedDoc :: jstring where
  "fencedDoc =
     js ''# Player'' @ [10, 10] @ [96, 96, 96] @ js ''jsx'' @ [10]
       @ js ''<AudioTranscript voices={[]} />'' @ [10] @ [96, 96, 96] @ [10]"

definition fencedTree :: node where
  "fencedTree =
     Node Root None [] None (Some 1) (Some 6)
       [Node Heading None [] None (Some 1) (Some 1)
          [Node OtherNode None [] (Some (js ''Player'')) (Some 1) (Some 1) []],
        Node OtherNode None [] (Some (js ''<AudioTranscript voices={[]} />''))
          (Some 3) (Some 5) []]"

definition fencedLibs :: platform where
  "fencedLibs =
     tablePlatform [(fencedDoc, fencedTree)] []
       [(voicesOf scenarioUrl, voicesPretty scenarioUrl)] [] []"

section \<open>Facts about strings\<close>

lemma includesStr_sublist: "includesStr s t \<longleftrightarrow> sublist t s"
  by (induction s) (simp_all add: sublist_Cons_right)

lemma splitOn_nonempty: "splitOn sep s \<noteq> []"
  by (induction s) (simp_all split: list.splits)

lemma splitOn_lines:
  "prefix (hd (splitOn sep s)) s \<and> (\<forall>l \<in> set (splitOn sep s). sublist l s)"
proof (induction s)
  case Nil
  then show ?case by simp
next
  case (Cons c cs)
  show ?case
  proof (cases "c = sep")
    case True
    with Cons show ?thesis
      by (auto simp: sublist_Cons_right)
  next
    case False
    obtain l ls where split: "splitOn sep cs = l # ls"
      using splitOn_nonempty [of sep cs] by (cases "splitOn sep cs") auto
    from Cons split have pre: "prefix l cs" and sub: "\<forall>x \<in> set ls. sublist x cs"
      by simp_all
    have "sublist (c # l) (c # cs)"
      using pre by (simp add: prefix_imp_sublist)
    with False split pre sub show ?thesis
      by (auto simp: sublist_Cons_right)
  qed
qed

lemma line_includes:
  assumes "l \<in> set (splitOn sep s)" and "includesStr l t"
  shows "includesStr s t"
proof -
  from assms(1) have "sublist l s"
    using splitOn_lines [of sep s] by blast
  moreover from assms(2) have "sublist t l"
    by (simp add: includesStr_sublist)
  ultimately show ?thesis
    unfolding includesStr_sublist by (rule sublist_order.order.trans [rotated])
qed

section \<open>Bulk deletion in batches\<close>

declare deleteLoop.simps [simp del]

lemma ceil_div_step:
  fixes b :: nat
  assumes "0 < b" "i < n"
  shows "(n - i + (b - 1)) div b = Suc ((n - (i + b) + (b - 1)) div b)"
proof -
  obtain c where b: "b = Suc c"
    using assms(1) by (cases b) auto
  have c: "c = b - 1"
    by (simp add: b)
  show ?thesis
  proof (cases "b \<le> n - i")
    case True
    define k where "k = n - (i + b)"
    have m: "n - i = k + b"
      using True by (simp add: k_def)
    have "(k + b + c) div b = (k + c + b) div b"
      by (simp only: ac_simps)
    also have "\<dots> = (k + c) div b + 1"
      by (rule div_add_self2) (simp add: b)
    finally have "(n - i + c) div b = Suc ((n - (i + b) + c) div b)"
      by (simp only: m k_def Suc_eq_plus1)
    then show ?thesis
      by (simp only: c)
  next
    case False
    have z: "n - (i + b) = 0" using False by simp
    obtain m where e: "n - i = Suc m"
      using assms(2) by (cases "n - i") auto
    have "m < b"
      using False e by simp
    have "Suc m + c = m + b"
      by (simp add: b)
    then have "(Suc m + c) div b = (m + b) div b"
      by (simp only:)
    also have "\<dots> = m div b + 1"
      by (rule div_add_self2) (simp add: b)
    also have "\<dots> = 1"
      using \<open>m < b\<close> by simp
    finally have "(Suc m + c) div b = Suc ((0 + c) div b)"
      by (simp add: b)
    then have "(n - i + c) div b = Suc ((n - (i + b) + c) div b)"
      by (simp only: e z)
    then show ?thesis
      by (simp only: c)
  qed
qed

lemma deleteLoop_requests:
  "\<exists>bs. deleteLoop i keys st =
          Inr (st\<lparr>objects := filter (\<lambda>k. k \<notin> set (drop i keys)) (objects st),
                  deleteRequests := deleteRequests st @ bs\<rparr>)
        \<and> concat bs = drop i keys
        \<and> list_all (\<lambda>b. b \<noteq> [] \<and> length b \<le> batchSize) bs
        \<and> length bs = (length keys - i + (batchSize - 1)) div batchSize"
proof (induction i keys st rule: deleteLoop.induct)
  case (1 i keys st)
  show ?case
  proof (cases "i < length keys")
    case False
    then show ?thesis
      by (simp add: deleteLoop.simps [of i keys st] batchSize_def)
  next
    case True
    define batch where "batch = slice keys i (i + batchSize)"
    define st1 where "st1 = st\<lparr>objects := filter (\<lambda>k. k \<notin> set batch) (objects st),
                                deleteRequests := deleteRequests st @ [batch]\<rparr>"
    have batch_eq: "batch = take batchSize (drop i keys)"
      by (simp add: batch_def slice_def)
    have bpos: "0 < batchSize"
      by (simp add: batchSize_def)
    have len: "length batch \<le> batchSize" "batch \<noteq> []"
      using True bpos by (auto simp: batch_eq)
    have "\<not> maxDeleteBatch < length batch"
      using len(1) by (simp add: maxDeleteBatch_def batchSize_def)
    then have send: "sendDeleteObjects st batch = Inr st1"
      by (simp add: sendDeleteObjects_def st1_def)
    from "1.IH" [OF True send [unfolded batch_def]]
    obtain bs where bs:
      "deleteLoop (i + batchSize) keys st1 =
         Inr (st1\<lparr>objects := filter (\<lambda>k. k \<notin> set (drop (i + batchSize) keys)) (objects st1),
                  deleteRequests := deleteRequests st1 @ bs\<rparr>)"
      "concat bs = drop (i + batchSize) keys"
      "list_all (\<lambda>b. b \<noteq> [] \<and> length b \<le> batchSize) bs"
      "length bs = (length keys - (i + batchSize) + (batchSize - 1)) div batchSize"
      by blast
    have split: "drop i keys = batch @ drop (i + batchSize) keys"
      by (simp add: batch_eq add.commute [of i] flip: drop_drop)
    have step: "deleteLoop i keys st = deleteLoop (i + batchSize) keys st1"
      using True send by (simp add: deleteLoop.simps [of i keys st] batch_def)
    have objs: "filter (\<lambda>k. k \<notin> set (drop (i + batchSize) keys)) (objects st1)
                = filter (\<lambda>k. k \<notin> set (drop i keys)) (objects st)"
      by (subst split) (auto simp: st1_def intro: filter_cong)
    have cnt: "(length keys - i + (batchSize - 1)) div batchSize
               = Suc ((length keys - (i + batchSize) + (batchSize - 1)) div batchSize)"
      by (rule ceil_div_step [OF bpos True])
    have run: "deleteLoop i keys st =
                 Inr (st\<lparr>objects := filter (\<lambda>k. k \<notin> set (drop i keys)) (objects st),
                         deleteRequests := deleteRequests st @ batch # bs\<rparr>)"
      unfolding step bs(1) objs by (simp add: st1_def)
    have cat: "concat (batch # bs) = drop i keys"
      using bs(2) split by simp
    have all: "list_all (\<lambda>b. b \<noteq> [] \<and> length b \<le> batchSize) (batch # bs)"
      using bs(3) len by simp
    have num: "length (batch # bs) = (length keys - i + (batchSize - 1)) div batchSize"
      by (simp only: length_Cons bs(4) cnt)
    from run cat all num show ?thesis
      by blast
  qed
qed

text \<open>
  C8.  For every list of keys, \<open>deleteMultiple\<close> succeeds and issues exactly the requests
  \<open>bs\<close>, in order, where \<open>bs\<close> cuts the key list into consecutive pieces (their
  concatenation is the key list, so every key is requested exactly once, in its place), no
  piece is empty or longer than 1000 keys (the backend's limit), there are
  \<open>\<lceil>n / 1000\<rceil>\<close> pieces, and for the empty key list no request is issued and the
  store is left as it was.
\<close>

theorem deleteMultiple_batches:
  "\<exists>bs st'. deleteMultiple keys st = Inr st'
     \<and> deleteRequests st' = deleteRequests st @ bs
     \<and> concat bs = keys
     \<and> list_all (\<lambda>b. b \<noteq> [] \<and> length b \<le> 1000 \<and> length b \<le> maxDeleteBatch) bs
     \<and> length bs = (length keys + 999) div 1000
     \<and> (keys = [] \<longrightarrow> bs = [] \<and> st' = st)"
proof (cases "keys = []")
  case True
  then show ?thesis
    by (simp add: deleteMultiple_def)
next
  case False
  from deleteLoop_requests [of 0 keys st] obtain bs where bs:
    "deleteLoop 0 keys st =
       Inr (st\<lparr>objects := filter (\<lambda>k. k \<notin> set keys) (objects st),
               deleteRequests := deleteRequests st @ bs\<rparr>)"
    "concat bs = keys"
    "list_all (\<lambda>b. b \<noteq> [] \<and> length b \<le> batchSize) bs"
    "length bs = (length keys + (batchSize - 1)) div batchSize"
    by auto
  have "list_all (\<lambda>b. b \<noteq> [] \<and> length b \<le> 1000 \<and> length b \<le> maxDeleteBatch) bs"
    using bs(3) by (simp add: batchSize_def maxDeleteBatch_def list_all_iff)
  with bs False show ?thesis
    by (simp add: deleteMultiple_def batchSize_def)
qed

theorem deleteMultiple_batches_witness:
  "\<exists>bs st'. deleteMultiple [js ''audio/a/v.mp3'', js ''audio/b/v.mp3'']
                \<lparr>objects = [js ''audio/a/v.mp3'', js ''audio/b/v.mp3'', js ''audio/c/v.mp3''],
                 deleteRequests = []\<rparr> = Inr st'
     \<and> deleteRequests st' = bs
     \<and> concat bs = [js ''audio/a/v.mp3'', js ''audio/b/v.mp3'']
     \<and> length bs = 1"
  using deleteMultiple_batches
    [of "[js ''audio/a/v.mp3'', js ''audio/b/v.mp3'']"
        "\<lparr>objects = [js ''audio/a/v.mp3'', js ''audio/b/v.mp3'', js ''audio/c/v.mp3''],
          deleteRequests = []\<rparr>"]
  by auto

section \<open>Orphan reconciliation\<close>










section \<open>Properties of the locator\<close>

lemma fold_concat_map:
  "fold f (concat (map g xs)) s = fold (\<lambda>x. fold f (g x)) xs s"
  by (induction xs arbitrary: s) simp_all

lemma walkAudio_preorder:
  "walkAudio parse cname n s = fold (visitAudio parse cname) (preorder n) s"
proof (induction parse cname n s rule: walkAudio.induct)
  case (1 parse cname t nm as v sl el cs s)
  have "fold (walkAudio parse cname) cs s' =
        fold (\<lambda>c. fold (visitAudio parse cname) (preorder c)) cs s'" for s'
    by (rule fold_cong) (auto simp: 1 fun_eq_iff)
  then show ?case
    by (simp add: fold_concat_map)
qed

lemma visitAudio_foundVoices:
  "foundVoices (visitAudio parse cname n s) =
     (case parsedOf parse cname n of None \<Rightarrow> foundVoices s | Some v \<Rightarrow> v)"
  by (simp add: visitAudio_def parsedOf_def voicesSource_def Let_def split: option.splits)

lemma fold_visitAudio_foundVoices:
  "foundVoices (fold (visitAudio parse cname) ns s) =
     (if List.map_filter (parsedOf parse cname) ns = [] then foundVoices s
      else last (List.map_filter (parsedOf parse cname) ns))"
proof (induction ns arbitrary: s)
  case Nil
  then show ?case by (simp add: List.map_filter_simps)
next
  case (Cons n ns)
  show ?case
    by (cases "parsedOf parse cname n")
       (simp_all add: Cons.IH visitAudio_foundVoices List.map_filter_simps)
qed

lemma walkAudio_foundVoices:
  "foundVoices (walkAudio parse cname ast \<lparr>foundHash = None, foundVoices = JArray []\<rparr>) =
     (if parsedVoices parse cname ast = [] then JArray []
      else last (parsedVoices parse cname ast))"
  by (simp add: walkAudio_preorder fold_visitAudio_foundVoices parsedVoices_def)

lemma located_none:
  assumes "parseMDX libs content = Inr ast"
    and "parsedVoices (jsonParse libs) cname ast = []
         \<or> last (parsedVoices (jsonParse libs) cname ast) = JArray []"
  shows "extractExistingAudioData libs content cname = Inr None"
proof -
  have "foundVoices (walkAudio (jsonParse libs) cname ast
          \<lparr>foundHash = None, foundVoices = JArray []\<rparr>) = JArray []"
    using assms(2) by (auto simp: walkAudio_foundVoices)
  then show ?thesis
    by (simp add: extractExistingAudioData_def assms(1) lengthOf_def isPositive_def)
qed

lemma located_type_error:
  assumes "parseMDX libs content = Inr ast"
    and "parsedVoices (jsonParse libs) cname ast \<noteq> []"
    and "last (parsedVoices (jsonParse libs) cname ast) = JNull
         \<or> (\<exists>s. last (parsedVoices (jsonParse libs) cname ast) = JString s \<and> s \<noteq> [])"
  shows "extractExistingAudioData libs content cname = Inl TypeError"
proof -
  have "foundVoices (walkAudio (jsonParse libs) cname ast
          \<lparr>foundHash = None, foundVoices = JArray []\<rparr>)
        = last (parsedVoices (jsonParse libs) cname ast)"
    using assms(2) by (simp add: walkAudio_foundVoices)
  with assms(3) show ?thesis
    by (auto simp: extractExistingAudioData_def assms(1) lengthOf_def isPositive_def)
qed

lemma map_vid_mockVoices: "map vid (mockVoices libs cfg file) = configVoiceIds cfg"
  by (simp add: mockVoices_def comp_def case_prod_unfold map_snd_enumerate)

lemma map_vid_uploadedVoices: "map vid (uploadedVoices cfg audioUrls) = configVoiceIds cfg"
  by (simp add: uploadedVoices_def comp_def case_prod_unfold map_snd_enumerate)

lemma processFile_not_located:
  assumes "extractCleanText libs content = Inr text" and "trim text \<noteq> []"
    and "extractExistingAudioData libs content (componentName cfg) = Inr None"
  shows "regenerates cfg (fst (processFile libs cfg st path content))"
  using assms
  by (auto simp: processFile_def Let_def isUnchanged_def regenerates_def map_vid_mockVoices
        map_vid_uploadedVoices split: sum.splits prod.splits)

lemma processFile_locate_fails:
  assumes "extractCleanText libs content = Inr text" and "trim text \<noteq> []"
    and "extractExistingAudioData libs content (componentName cfg) = Inl e"
  shows "processFile libs cfg st path content = (Inl e, content, st)"
  using assms by (simp add: processFile_def Let_def)

text \<open>
  C10, the code and its failing input.  Take a document that parses.  When no component
  of the configured name carries a non-empty \<^verbatim>\<open>voices\<close> attribute that \<^verbatim>\<open>JSON.parse\<close>
  accepts, or the last such attribute in document order parses to the empty array,
  \<open>extractExistingAudioData\<close> returns \<open>null\<close>, whatever hash annotations the document
  holds, and the generate command does not skip the document: it goes on to regeneration
  for the requested voices.  When the last such attribute parses to \<^verbatim>\<open>null\<close> (the text
  \<^verbatim>\<open>voices={null}\<close>) or to a non-empty string, there is no parseable voice array either,
  but \<open>extractExistingAudioData\<close> throws a \<^verbatim>\<open>TypeError\<close>, and the generate command
  reports the document as failed.
\<close>

theorem located_null_or_type_error:
  assumes "parseMDX libs content = Inr ast"
  shows "(parsedVoices (jsonParse libs) (componentName cfg) ast = []
            \<or> last (parsedVoices (jsonParse libs) (componentName cfg) ast) = JArray []
          \<longrightarrow> extractExistingAudioData libs content (componentName cfg) = Inr None
              \<and> (\<forall>text. extractCleanText libs content = Inr text \<and> trim text \<noteq> []
                    \<longrightarrow> regenerates cfg (fst (processFile libs cfg st path content))))
       \<and> (parsedVoices (jsonParse libs) (componentName cfg) ast \<noteq> []
            \<and> (last (parsedVoices (jsonParse libs) (componentName cfg) ast) = JNull
                \<or> (\<exists>s. last (parsedVoices (jsonParse libs) (componentName cfg) ast) = JString s
                         \<and> s \<noteq> []))
          \<longrightarrow> extractExistingAudioData libs content (componentName cfg) = Inl TypeError
              \<and> (\<forall>text. extractCleanText libs content = Inr text \<and> trim text \<noteq> []
                    \<longrightarrow> processFile libs cfg st path content = (Inl TypeError, content, st)))"
proof (intro conjI impI allI)
  assume a: "parsedVoices (jsonParse libs) (componentName cfg) ast = []
             \<or> last (parsedVoices (jsonParse libs) (componentName cfg) ast) = JArray []"
  show none: "extractExistingAudioData libs content (componentName cfg) = Inr None"
    by (rule located_none [OF assms a])
  fix t
  assume "extractCleanText libs content = Inr t \<and> trim t \<noteq> []"
  then show "regenerates cfg (fst (processFile libs cfg st path content))"
    using processFile_not_located [OF _ _ none] by blast
next
  assume a: "parsedVoices (jsonParse libs) (componentName cfg) ast \<noteq> []
             \<and> (last (parsedVoices (jsonParse libs) (componentName cfg) ast) = JNull
                 \<or> (\<exists>s. last (parsedVoices (jsonParse libs) (componentName cfg) ast) = JString s
                          \<and> s \<noteq> []))"
  show err: "extractExistingAudioData libs content (componentName cfg) = Inl TypeError"
    using a by (intro located_type_error [OF assms]) simp_all
  fix t
  assume "extractCleanText libs content = Inr t \<and> trim t \<noteq> []"
  then show "processFile libs cfg st path content = (Inl TypeError, content, st)"
    using processFile_locate_fails [OF _ _ err] by blast
qed

lemma annotated_text:
  assumes "parseMDX libs doc = Inr (annotatedTree fp src)" and "matter libs doc = Inr doc"
    and "removeEsm libs = removeEsmNodes"
    and "plainText libs helloRoot = Inr (js ''Hello'' @ [10])"
  shows "extractCleanText libs doc = Inr (js ''Hello'')"
proof -
  have tree: "remarkRemoveJSX (removeEsmNodes (annotatedTree fp src)) = helloRoot"
    by (simp add: removeEsmNodes_def annotatedTree_def helloParagraph_def helloRoot_def
          isJsxOrExpression_def)
  have post: "postProcess (js ''Hello'' @ [10]) = js ''Hello''"
    by (simp add: postProcess_def js_def trim_def isSpace_def startsComma_def startsPeriod_def)
  show ?thesis
    by (simp add: extractCleanText_def assms tree post)
qed

lemma hello_nonblank: "trim (js ''Hello'') \<noteq> []"
  by (simp add: trim_def js_def isSpace_def)

lemma annotated_parsed:
  "parsedVoices parse (js ''AudioTranscript'') (annotatedTree fp src) =
     (case parse src of None \<Rightarrow> [] | Some v \<Rightarrow> [v])" if "src \<noteq> []"
  using that
  by (simp add: parsedVoices_def annotatedTree_def helloParagraph_def parsedOf_def
        voicesSource_def truthyValue_def jsonSource_def List.map_filter_simps js_def
      split: option.splits)

theorem located_null_or_type_error_witness:
  "hashMatch (js ''/* speak-mintlify-hash: deadbeef */'') = Some (js ''deadbeef'')
   \<and> parsedVoices (jsonParse staleLibs) (js ''AudioTranscript'') staleTree = [JArray []]
   \<and> extractExistingAudioData staleLibs staleDoc (js ''AudioTranscript'') = Inr None
   \<and> regenerates sampleConfig
        (fst (processFile staleLibs sampleConfig emptyStore (js ''a.mdx'') staleDoc))
   \<and> parsedVoices (jsonParse nullLibs) (js ''AudioTranscript'') nullTree = [JNull]
   \<and> extractExistingAudioData nullLibs nullDoc (js ''AudioTranscript'') = Inl TypeError
   \<and> processFile nullLibs sampleConfig emptyStore (js ''a.mdx'') nullDoc
       = (Inl TypeError, nullDoc, emptyStore)"
proof -
  have name: "componentName sampleConfig = js ''AudioTranscript''"
    by (simp add: sampleConfig_def defaultComponentName_def)
  have h: "hashMatch (js ''/* speak-mintlify-hash: deadbeef */'') = Some (js ''deadbeef'')"
    by (simp add: js_def matchHashAt_def stripPrefix_def isSpace_def isHex_def)
  have sparse: "parseMDX staleLibs staleDoc = Inr staleTree"
    by (simp add: staleLibs_def tablePlatform_def)
  have src: "js ''[]'' \<noteq> []" "js ''null'' \<noteq> []"
    by (simp_all add: js_def)
  have spv: "parsedVoices (jsonParse staleLibs) (js ''AudioTranscript'') staleTree = [JArray []]"
    by (simp add: staleTree_def annotated_parsed [OF src(1)])
       (simp add: staleLibs_def tablePlatform_def)
  have stext: "extractCleanText staleLibs staleDoc = Inr (js ''Hello'')"
    by (rule annotated_text [where fp = "js ''deadbeef''" and src = "js ''[]''"])
       (simp_all add: staleLibs_def tablePlatform_def staleTree_def)
  have nparse: "parseMDX nullLibs nullDoc = Inr nullTree"
    by (simp add: nullLibs_def tablePlatform_def)
  have npv: "parsedVoices (jsonParse nullLibs) (js ''AudioTranscript'') nullTree = [JNull]"
    by (simp add: nullTree_def annotated_parsed [OF src(2)])
       (simp add: nullLibs_def tablePlatform_def)
  have ntext: "extractCleanText nullLibs nullDoc = Inr (js ''Hello'')"
    by (rule annotated_text [where fp = "js ''deadbeef''" and src = "js ''null''"])
       (simp_all add: nullLibs_def tablePlatform_def nullTree_def)
  note stale = located_null_or_type_error
    [OF sparse, of sampleConfig emptyStore "js ''a.mdx''", unfolded name]
  note nul = located_null_or_type_error
    [OF nparse, of sampleConfig emptyStore "js ''a.mdx''", unfolded name]
  from stale have s1: "extractExistingAudioData staleLibs staleDoc (js ''AudioTranscript'') = Inr None"
    and s2: "regenerates sampleConfig
               (fst (processFile staleLibs sampleConfig emptyStore (js ''a.mdx'') staleDoc))"
    using spv stext hello_nonblank by auto
  from nul have n1: "extractExistingAudioData nullLibs nullDoc (js ''AudioTranscript'') = Inl TypeError"
    and n2: "processFile nullLibs sampleConfig emptyStore (js ''a.mdx'') nullDoc
               = (Inl TypeError, nullDoc, emptyStore)"
    using npv ntext hello_nonblank by auto
  from h spv s1 s2 npv n1 n2 show ?thesis
    by simp
qed

section \<open>Insertion points\<close>

lemma walkInsertion_preorder:
  "walkInsertion n s = fold visitInsertion (preorder n) s"
proof (induction n s rule: walkInsertion.induct)
  case (1 t nm as v sl el cs s)
  have "fold walkInsertion cs s' = fold (\<lambda>c. fold visitInsertion (preorder c)) cs s'" for s'
    by (rule fold_cong) (auto simp: 1 fun_eq_iff)
  then show ?case
    by (simp add: fold_concat_map)
qed

lemma fold_visit_import:
  "lastImportEndLine (fold visitInsertion ns s) = fold max (esmEndLines ns) (lastImportEndLine s)"
  by (induction ns arbitrary: s)
     (simp_all add: visitInsertion_def Let_def max.commute esmEndLines_def)

lemma fold_visit_frontmatter:
  "frontmatterEndLine (fold visitInsertion ns s) =
     (if yamlEndLines ns = [] then frontmatterEndLine s else last (yamlEndLines ns))"
  by (induction ns arbitrary: s) (simp_all add: visitInsertion_def Let_def yamlEndLines_def)

lemma fold_visit_content:
  "firstContentLine (fold visitInsertion ns s) =
     (if firstContentLine s \<noteq> 0 then firstContentLine s
      else if blockStartLines ns = [] then 0 else hd (blockStartLines ns))"
  by (induction ns arbitrary: s) (simp_all add: visitInsertion_def Let_def blockStartLines_def)

lemma fold_max_Max:
  fixes a :: nat
  shows "fold max xs a = Max (insert a (set xs))"
proof (induction xs arbitrary: a)
  case Nil
  then show ?case by simp
next
  case (Cons x xs)
  have "Max (insert (max x a) (set xs)) = Max (insert a (insert x (set xs)))"
    by (cases "set xs = {}") (simp_all add: max.assoc max.commute max.left_commute)
  with Cons show ?case
    by simp
qed

lemma insertionPoints_spec:
  "insertionPoints ast = (importLineSpec ast, componentLineSpec ast)"
proof -
  define s where "s = walkInsertion ast
     \<lparr>frontmatterEndLine = 0, lastImportEndLine = 0, firstContentLine = 0\<rparr>"
  have pos: "0 < x" if "x \<in> set (importEndLines ast)" for x
    using that by (auto simp: importEndLines_def esmEndLines_def)
  have imp: "lastImportEndLine s = (if importEndLines ast = [] then 0 else Max (set (importEndLines ast)))"
  proof (cases "importEndLines ast = []")
    case True
    then show ?thesis
      by (simp add: s_def walkInsertion_preorder fold_visit_import importEndLines_def [symmetric])
  next
    case False
    have "lastImportEndLine s = Max (insert 0 (set (importEndLines ast)))"
      by (simp add: s_def walkInsertion_preorder fold_visit_import fold_max_Max
            importEndLines_def [symmetric])
    also have "\<dots> = Max (set (importEndLines ast))"
      using False by (simp add: max_def)
    finally show ?thesis
      using False by simp
  qed
  have imp_pos: "0 < lastImportEndLine s \<longleftrightarrow> importEndLines ast \<noteq> []"
  proof (cases "importEndLines ast = []")
    case True
    then show ?thesis by (simp add: imp)
  next
    case False
    then have "Max (set (importEndLines ast)) \<in> set (importEndLines ast)"
      by (intro Max_in) simp_all
    then show ?thesis
      using False pos by (simp add: imp)
  qed
  have fm: "frontmatterEndLine s =
              (if frontmatterEndLines ast = [] then 0 else last (frontmatterEndLines ast))"
    by (simp add: s_def walkInsertion_preorder fold_visit_frontmatter
          frontmatterEndLines_def [symmetric])
  have ct: "firstContentLine s =
              (if contentStartLines ast = [] then 0 else hd (contentStartLines ast))"
    by (simp add: s_def walkInsertion_preorder fold_visit_content
          contentStartLines_def [symmetric])
  have ct_in: "hd (contentStartLines ast) \<in> set (contentStartLines ast)"
    if "contentStartLines ast \<noteq> []"
    using that by simp
  have ct_pos: "0 < firstContentLine s \<longleftrightarrow> contentStartLines ast \<noteq> []"
  proof (cases "contentStartLines ast = []")
    case True
    then show ?thesis by (simp add: ct)
  next
    case False
    from ct_in [OF False] have "0 < hd (contentStartLines ast)"
      by (auto simp: contentStartLines_def blockStartLines_def)
    then show ?thesis
      using False by (simp add: ct)
  qed
  have ip: "(if 0 < lastImportEndLine s then lastImportEndLine s else frontmatterEndLine s)
              = importLineSpec ast"
  proof (cases "importEndLines ast = []")
    case True
    then have "lastImportEndLine s = 0"
      by (simp add: imp)
    then show ?thesis
      using True by (simp add: importLineSpec_def fm)
  next
    case False
    then have "0 < lastImportEndLine s" "lastImportEndLine s = Max (set (importEndLines ast))"
      using imp_pos by (simp_all add: imp)
    then show ?thesis
      using False by (simp add: importLineSpec_def)
  qed
  have cp: "(if 0 < firstContentLine s then firstContentLine s - 1 else importLineSpec ast)
              = componentLineSpec ast"
  proof (cases "contentStartLines ast = []")
    case True
    then have "firstContentLine s = 0"
      by (simp add: ct)
    then show ?thesis
      using True by (simp add: componentLineSpec_def)
  next
    case False
    then have "0 < firstContentLine s" "firstContentLine s = hd (contentStartLines ast)"
      using ct_pos by (simp_all add: ct)
    then show ?thesis
      using False by (simp add: componentLineSpec_def)
  qed
  show ?thesis
    unfolding insertionPoints_def s_def [symmetric] Let_def ip cp ..
qed

lemma sorted_Max_last:
  fixes xs :: "nat list"
  assumes "sorted xs" and "xs \<noteq> []"
  shows "Max (set xs) = last xs"
  using assms
proof (induction xs)
  case Nil
  then show ?case by simp
next
  case (Cons x xs)
  show ?case
  proof (cases "xs = []")
    case True
    then show ?thesis by simp
  next
    case False
    with Cons have "Max (set xs) = last xs" "x \<le> last xs"
      by simp_all
    with False show ?thesis
      by (simp add: max_def)
  qed
qed

lemma importStatement_distinct:
  "importStatementOf cname imp \<noteq> []"
  "importStatementOf cname imp \<noteq> hashCommentOf h"
  "importStatementOf cname imp \<noteq> componentCodeOf libs cname vs"
  by (simp_all add: importStatementOf_def hashCommentOf_def componentCodeOf_def js_def)

lemma hasAudioComponent_literal:
  assumes "\<not> list_ex isSyntaxCharacter cname"
  shows "hasAudioComponent libs content cname = Inr (includesStr content (js ''<'' @ cname))"
  using assms by (simp add: hasAudioComponent_def)

lemma default_name_literal: "\<not> list_ex isSyntaxCharacter (resolveName None)"
  by (simp add: resolveName_def defaultComponentName_def js_def isSyntaxCharacter_def)

lemma scanLines_absent:
  assumes "\<forall>l \<in> set ls. \<not> includesStr l (js ''<'' @ cname)" and "componentStart s = None"
  shows "componentStart (scanLines cname ls i s) = None"
  using assms
  by (induction ls arbitrary: i s) (simp_all add: Let_def)

lemma injectLines_fresh:
  assumes "\<not> includesStr content (js ''<'' @ resolveName optName)"
    and "hasAudioComponent libs content (resolveName optName) = Inr present"
  shows "injectLines libs content vs h optImport optName =
           (case findInsertionPoints libs content of
              Inl e \<Rightarrow> Inl e
            | Inr (importPos, componentPos) \<Rightarrow>
                Inr (insertLines (splitOn 10 content)
                       (hasImportLine (splitOn 10 content) (resolveName optName))
                       importPos componentPos
                       (importStatementOf (resolveName optName) (resolveImport optImport))
                       (hashCommentOf h) (componentCodeOf libs (resolveName optName) vs)))"
proof -
  have "\<forall>l \<in> set (splitOn 10 content). \<not> includesStr l (js ''<'' @ resolveName optName)"
    using assms(1) line_includes by blast
  then have "componentStart (scanLines (resolveName optName) (splitOn 10 content) 0
               \<lparr>componentStart = None, componentEnd = None, hashLine = None,
                lastImportLine = None\<rparr>) = None"
    by (rule scanLines_absent) simp
  then show ?thesis
    by (simp add: injectLines_def Let_def assms(2))
qed

lemma needsBlank_before:
  assumes "a \<le> length ls"
  shows "needsBlank ls (int a - 1) \<longleftrightarrow> a = 0 \<or> trim (ls ! (a - 1)) \<noteq> []"
proof (cases a)
  case 0
  then show ?thesis by (simp add: needsBlank_def)
next
  case (Suc k)
  then have "int a - 1 = int k" "k < length ls"
    using assms by simp_all
  then show ?thesis
    by (simp add: needsBlank_def Suc)
qed

lemma needsBlank_nat:
  "needsBlank ls (int k) \<longleftrightarrow> (k < length ls \<longrightarrow> trim (ls ! k) \<noteq> [])"
  by (simp add: needsBlank_def)

lemma insertBlock_layout:
  assumes "a \<le> length l1"
  shows "(let l2 = (if needsBlank l1 (int a - 1) then spliceInsert l1 a [[]] else l1);
              l3 = spliceInsert l2 a [hc];
              l4 = spliceInsert l3 (a + 1) [cc]
          in if needsBlank l4 (int a + 2) then spliceInsert l4 (a + 2) [[]] else l4)
         = take a l1 @ [hc, cc]
             @ (if 0 < a \<and> a < length l1 \<and> trim (l1 ! (a - 1)) = [] \<and> trim (l1 ! a) = []
                then [] else [[]])
             @ drop a l1"
proof -
  define A where "A = take a l1"
  define B where "B = drop a l1"
  have lenA: "length A = a"
    using assms by (simp add: A_def)
  have l1: "l1 = A @ B"
    by (simp add: A_def B_def)
  have idx: "int a + 2 = int (a + 2)"
    by simp
  show ?thesis
  proof (cases "needsBlank l1 (int a - 1)")
    case True
    have l2: "spliceInsert l1 a [[]] = A @ [] # B"
      by (simp add: spliceInsert_def A_def B_def)
    have l3: "spliceInsert (A @ [] # B) a [hc] = A @ hc # [] # B"
      by (simp add: spliceInsert_def lenA)
    have l4: "spliceInsert (A @ hc # [] # B) (a + 1) [cc] = A @ hc # cc # [] # B"
      by (simp add: spliceInsert_def lenA)
    have "(A @ hc # cc # [] # B) ! (a + 2) = []"
      by (simp add: nth_append lenA)
    then have nb2: "\<not> needsBlank (A @ hc # cc # [] # B) (int (a + 2))"
      unfolding needsBlank_nat by (simp add: lenA trim_def)
    have cond: "\<not> (0 < a \<and> a < length l1 \<and> trim (l1 ! (a - 1)) = [] \<and> trim (l1 ! a) = [])"
      using True needsBlank_before [OF assms] by auto
    have "(let l2 = (if needsBlank l1 (int a - 1) then spliceInsert l1 a [[]] else l1);
               l3 = spliceInsert l2 a [hc];
               l4 = spliceInsert l3 (a + 1) [cc]
           in if needsBlank l4 (int a + 2) then spliceInsert l4 (a + 2) [[]] else l4)
          = A @ hc # cc # [] # B"
      unfolding Let_def idx
      by (simp only: True if_True l2 l3 l4 nb2 if_False)
    also have "\<dots> = take a l1 @ [hc, cc]
             @ (if 0 < a \<and> a < length l1 \<and> trim (l1 ! (a - 1)) = [] \<and> trim (l1 ! a) = []
                then [] else [[]])
             @ drop a l1"
      by (simp only: cond if_False) (simp add: A_def B_def)
    finally show ?thesis .
  next
    case False
    then have before: "0 < a" "trim (l1 ! (a - 1)) = []"
      using needsBlank_before [OF assms] by auto
    have l3: "spliceInsert l1 a [hc] = A @ hc # B"
      by (simp add: spliceInsert_def A_def B_def)
    have l4: "spliceInsert (A @ hc # B) (a + 1) [cc] = A @ hc # cc # B"
      by (simp add: spliceInsert_def lenA)
    have nb2: "needsBlank (A @ hc # cc # B) (int (a + 2)) \<longleftrightarrow> \<not> (a < length l1 \<and> trim (l1 ! a) = [])"
    proof (cases B)
      case Nil
      then have "length l1 = a"
        using l1 lenA by simp
      then show ?thesis
        unfolding needsBlank_nat by (simp add: Nil lenA)
    next
      case (Cons b B')
      then have "a < length l1" "l1 ! a = b"
        using l1 lenA by (simp_all add: nth_append)
      moreover have "(A @ hc # cc # B) ! (a + 2) = b"
        by (simp add: nth_append lenA Cons)
      ultimately show ?thesis
        unfolding needsBlank_nat by (simp add: lenA Cons)
    qed
    have l5: "spliceInsert (A @ hc # cc # B) (a + 2) [[]] = A @ hc # cc # [] # B"
      by (simp add: spliceInsert_def lenA)
    have "(let l2 = (if needsBlank l1 (int a - 1) then spliceInsert l1 a [[]] else l1);
               l3 = spliceInsert l2 a [hc];
               l4 = spliceInsert l3 (a + 1) [cc]
           in if needsBlank l4 (int a + 2) then spliceInsert l4 (a + 2) [[]] else l4)
          = (if a < length l1 \<and> trim (l1 ! a) = [] then A @ hc # cc # B
             else A @ hc # cc # [] # B)"
      unfolding Let_def idx
      by (simp only: False if_False l3 l4 nb2 l5) simp
    also have "\<dots> = take a l1 @ [hc, cc]
             @ (if 0 < a \<and> a < length l1 \<and> trim (l1 ! (a - 1)) = [] \<and> trim (l1 ! a) = []
                then [] else [[]])
             @ drop a l1"
      using before by (simp add: A_def B_def)
    finally show ?thesis .
  qed
qed

lemma insertLines_layout:
  assumes "ip \<le> length ls" and "cp \<le> length ls"
  shows "insertLines ls imported ip cp stmt hc cc =
           (let l1 = (if imported then ls else take ip ls @ [stmt] @ drop ip ls);
                a = (if imported then cp else cp + 1)
            in take a l1 @ [hc, cc]
                 @ (if 0 < a \<and> a < length l1 \<and> trim (l1 ! (a - 1)) = [] \<and> trim (l1 ! a) = []
                    then [] else [[]])
                 @ drop a l1)"
proof -
  define F where "F = (\<lambda>l1 a.
     let l2 = (if needsBlank l1 (int a - 1) then spliceInsert l1 a [[]] else l1);
         l3 = spliceInsert l2 a [hc];
         l4 = spliceInsert l3 (a + 1) [cc]
     in if needsBlank l4 (int a + 2) then spliceInsert l4 (a + 2) [[]] else l4)"
  define l1 where "l1 = (if imported then ls else take ip ls @ [stmt] @ drop ip ls)"
  define a where "a = (if imported then cp else cp + 1)"
  have len: "a \<le> length l1"
    using assms by (simp add: a_def l1_def)
  have "insertLines ls imported ip cp stmt hc cc = F l1 a"
    by (simp add: insertLines_def F_def l1_def a_def spliceInsert_def [of ls] Let_def)
  also have "\<dots> = take a l1 @ [hc, cc]
                 @ (if 0 < a \<and> a < length l1 \<and> trim (l1 ! (a - 1)) = [] \<and> trim (l1 ! a) = []
                    then [] else [[]])
                 @ drop a l1"
    unfolding F_def by (rule insertBlock_layout [OF len])
  finally show ?thesis
    unfolding Let_def l1_def a_def .
qed

text \<open>
  C6, the code and its failing inputs.  Take a document that parses and in which the text
  \<^verbatim>\<open><Name\<close> occurs nowhere, let the test of the code for the component return (it throws
  only for a name that is not a regular expression), and let the parser report line
  numbers of the document.  The two positions are the ones of the claim: the
  import line is the greatest end line of an import/export node if there is one (the last
  one's, when the end lines are in document order), else the end line of the last
  front-matter node if there is one, else 0; the component line is one less than the
  start line of the first heading, paragraph or flow component, and the import line if
  there is none.  The lines written are these: the import statement goes in at the import
  line unless some line of the document contains the text \<^verbatim>\<open>import { Name }\<close>; the hash
  annotation and the tag then go in at the component line, counted one further when the
  import statement went in, wherever that was; one blank line follows the tag unless the
  lines on both sides of the block are blank already.  So an import of the component in
  any other layout gets a second import beside it, and a block whose import line lies
  below its component line lands one line too low.
\<close>

theorem fresh_insertion_layout:
  assumes "parseMDX libs content = Inr ast"
    and "\<not> includesStr content (js ''<'' @ resolveName optName)"
    and "hasAudioComponent libs content (resolveName optName) = Inr present"
    and "importLineSpec ast \<le> length (splitOn 10 content)"
    and "componentLineSpec ast \<le> length (splitOn 10 content)"
  shows "findInsertionPoints libs content = Inr (importLineSpec ast, componentLineSpec ast)
       \<and> (sorted (importEndLines ast) \<and> importEndLines ast \<noteq> []
            \<longrightarrow> importLineSpec ast = last (importEndLines ast))
       \<and> injectLines libs content vs h optImport optName =
           Inr (let ls = splitOn 10 content;
                    imported = (\<exists>l \<in> set ls.
                                  includesStr l (js ''import { '' @ resolveName optName @ js '' }''));
                    l1 = (if imported then ls
                          else take (importLineSpec ast) ls
                               @ [importStatementOf (resolveName optName) (resolveImport optImport)]
                               @ drop (importLineSpec ast) ls);
                    a = (if imported then componentLineSpec ast else componentLineSpec ast + 1)
                in take a l1
                   @ [hashCommentOf h, componentCodeOf libs (resolveName optName) vs]
                   @ (if 0 < a \<and> a < length l1 \<and> trim (l1 ! (a - 1)) = [] \<and> trim (l1 ! a) = []
                      then [] else [[]])
                   @ drop a l1)"
proof -
  have points: "findInsertionPoints libs content = Inr (importLineSpec ast, componentLineSpec ast)"
    by (simp add: findInsertionPoints_def assms(1) insertionPoints_spec)
  have last: "sorted (importEndLines ast) \<and> importEndLines ast \<noteq> []
                \<longrightarrow> importLineSpec ast = last (importEndLines ast)"
    by (simp add: importLineSpec_def sorted_Max_last)
  have imported: "hasImportLine (splitOn 10 content) (resolveName optName) \<longleftrightarrow>
          (\<exists>l \<in> set (splitOn 10 content).
             includesStr l (js ''import { '' @ resolveName optName @ js '' }''))"
    by (simp add: hasImportLine_def list_ex_iff)
  have run: "injectLines libs content vs h optImport optName =
          Inr (insertLines (splitOn 10 content)
                 (hasImportLine (splitOn 10 content) (resolveName optName))
                 (importLineSpec ast) (componentLineSpec ast)
                 (importStatementOf (resolveName optName) (resolveImport optImport))
                 (hashCommentOf h) (componentCodeOf libs (resolveName optName) vs))"
    by (simp add: injectLines_fresh [OF assms(2,3)] points)
  show ?thesis
    unfolding run insertLines_layout [OF assms(4,5)] imported
    using points last by (simp add: Let_def)
qed

lemma sample_component:
  assumes "jsonStringify libs (voicesOf scenarioUrl) = voicesPretty scenarioUrl"
  shows "componentCodeOf libs (resolveName None) (voicesOf scenarioUrl) = componentText"
proof -
  have "formatVoices libs (voicesOf scenarioUrl) =
          joinWith [10] (case splitOn 10 (voicesPretty scenarioUrl) of
                           [] \<Rightarrow> [] | l # rest \<Rightarrow> l # map (\<lambda>x. js ''  '' @ x) rest)"
    by (simp only: formatVoices_def assms)
  then show ?thesis
    by (simp add: componentCodeOf_def voicesPretty_def componentText_def
          scenarioUrl_def resolveName_def defaultComponentName_def js_def)
qed

lemma sample_import: "importStatementOf (resolveName None) (resolveImport None) = importText"
  by (simp add: importStatementOf_def importText_def resolveName_def resolveImport_def
        defaultComponentName_def defaultComponentImport_def js_def)

lemma sample_hash: "hashCommentOf (js ''deadbeef'') = hashText"
  by (simp add: hashCommentOf_def hashText_def js_def)

lemma imported_lines: "splitOn 10 importedDoc = [compactImport, [], js ''# Hi'', []]"
  by (simp add: importedDoc_def compactImport_def js_def)

lemma imported_points:
  "importLineSpec importedTree = 1" "componentLineSpec importedTree = 2"
  by (simp_all add: importLineSpec_def componentLineSpec_def importEndLines_def
        frontmatterEndLines_def contentStartLines_def esmEndLines_def yamlEndLines_def
        blockStartLines_def importedTree_def lineOf_def)

lemma export_lines:
  "splitOn 10 exportDoc = [js ''# Hi'', [], js ''export const meta = 1;'', [], js ''Text'', []]"
  by (simp add: exportDoc_def js_def)

lemma export_points:
  "importLineSpec exportTree = 3" "componentLineSpec exportTree = 0"
  by (simp_all add: importLineSpec_def componentLineSpec_def importEndLines_def
        frontmatterEndLines_def contentStartLines_def esmEndLines_def yamlEndLines_def
        blockStartLines_def exportTree_def lineOf_def)

lemma sample_text_absent:
  "\<not> includesStr importedDoc (js ''<'' @ resolveName None)"
  "\<not> includesStr exportDoc (js ''<'' @ resolveName None)"
  "\<not> includesStr scenarioDoc (js ''<'' @ resolveName None)"
  by (simp_all add: importedDoc_def compactImport_def exportDoc_def scenarioDoc_def
        resolveName_def defaultComponentName_def js_def)

lemma sample_absent:
  "hasAudioComponent libs importedDoc (resolveName None) = Inr False"
  "hasAudioComponent libs exportDoc (resolveName None) = Inr False"
  "hasAudioComponent libs scenarioDoc (resolveName None) = Inr False"
  unfolding hasAudioComponent_literal [OF default_name_literal]
  by (simp_all add: sample_text_absent)

lemma sample_blank: "trim [] = []" "trim (js ''# Hi'') \<noteq> []" "trim importText \<noteq> []"
  "trim compactImport \<noteq> []" "trim (js ''export const meta = 1;'') \<noteq> []"
  by (simp_all add: trim_def js_def isSpace_def importText_def compactImport_def)

lemma sample_not_imported:
  "(\<exists>l \<in> set [compactImport, [], js ''# Hi'', []].
      includesStr l (js ''import { '' @ resolveName None @ js '' }'')) = False"
  "(\<exists>l \<in> set [js ''# Hi'', [], js ''export const meta = 1;'', [], js ''Text'', []].
      includesStr l (js ''import { '' @ resolveName None @ js '' }'')) = False"
  by (simp_all add: compactImport_def resolveName_def defaultComponentName_def js_def)

theorem fresh_insertion_layout_witness:
  "injectLines importedLibs importedDoc (voicesOf scenarioUrl) (js ''deadbeef'') None None =
     Inr [compactImport, importText, [], hashText, componentText, [], js ''# Hi'', []]
   \<and> injectLines exportLibs exportDoc (voicesOf scenarioUrl) (js ''deadbeef'') None None =
       Inr [js ''# Hi'', hashText, componentText, [], [], js ''export const meta = 1;'',
            importText, [], js ''Text'', []]"
proof -
  have iparse: "parseMDX importedLibs importedDoc = Inr importedTree"
    by (simp add: importedLibs_def tablePlatform_def)
  have icomp: "componentCodeOf importedLibs (resolveName None) (voicesOf scenarioUrl)
                 = componentText"
    by (rule sample_component) (simp add: importedLibs_def tablePlatform_def)
  have irange: "importLineSpec importedTree \<le> length (splitOn 10 importedDoc)"
    "componentLineSpec importedTree \<le> length (splitOn 10 importedDoc)"
    by (simp_all add: imported_lines imported_points)
  have eparse: "parseMDX exportLibs exportDoc = Inr exportTree"
    by (simp add: exportLibs_def tablePlatform_def)
  have ecomp: "componentCodeOf exportLibs (resolveName None) (voicesOf scenarioUrl)
                 = componentText"
    by (rule sample_component) (simp add: exportLibs_def tablePlatform_def)
  have erange: "importLineSpec exportTree \<le> length (splitOn 10 exportDoc)"
    "componentLineSpec exportTree \<le> length (splitOn 10 exportDoc)"
    by (simp_all add: export_lines export_points)
  note imported = fresh_insertion_layout
    [OF iparse sample_text_absent(1) sample_absent(1) irange, of "voicesOf scenarioUrl" "js ''deadbeef''" None,
     THEN conjunct2, THEN conjunct2,
     unfolded imported_lines imported_points icomp sample_import sample_hash Let_def
       sample_not_imported(1) if_False]
  note exported = fresh_insertion_layout
    [OF eparse sample_text_absent(2) sample_absent(2) erange, of "voicesOf scenarioUrl" "js ''deadbeef''" None,
     THEN conjunct2, THEN conjunct2,
     unfolded export_lines export_points ecomp sample_import sample_hash Let_def
       sample_not_imported(2) if_False]
  from imported have first:
    "injectLines importedLibs importedDoc (voicesOf scenarioUrl) (js ''deadbeef'') None None =
       Inr [compactImport, importText, [], hashText, componentText, [], js ''# Hi'', []]"
    by (simp add: sample_blank)
  from exported have second:
    "injectLines exportLibs exportDoc (voicesOf scenarioUrl) (js ''deadbeef'') None None =
       Inr [js ''# Hi'', hashText, componentText, [], [], js ''export const meta = 1;'',
            importText, [], js ''Text'', []]"
    by (simp add: sample_blank)
  from first second show ?thesis
    by simp
qed

text \<open>
  A document that shows the tag in a code fence holds no narration component, yet the test
  of the code finds the text of the tag: the line scan takes the fenced line for the old
  block, deletes it, and puts the new block at the top, without an import statement.
\<close>

lemma fenced_lines:
  "splitOn 10 fencedDoc =
     [js ''# Player'', [], [96, 96, 96] @ js ''jsx'', js ''<AudioTranscript voices={[]} />'',
      [96, 96, 96], []]"
  by (simp add: fencedDoc_def js_def)

lemma fenced_present: "hasAudioComponent libs fencedDoc (resolveName None) = Inr True"
  unfolding hasAudioComponent_literal [OF default_name_literal]
  by (simp add: fencedDoc_def resolveName_def defaultComponentName_def js_def)

lemma fenced_scan:
  "scanLines (resolveName None)
     [js ''# Player'', [], [96, 96, 96] @ js ''jsx'', js ''<AudioTranscript voices={[]} />'',
      [96, 96, 96], []] 0
     \<lparr>componentStart = None, componentEnd = None, hashLine = None, lastImportLine = None\<rparr>
   = \<lparr>componentStart = Some 3, componentEnd = Some 3, hashLine = None, lastImportLine = None\<rparr>"
  by (simp add: resolveName_def defaultComponentName_def js_def trim_def isSpace_def
        startsWith_def Let_def)

lemma injectLines_relocate:
  assumes "hasAudioComponent libs content (resolveName optName) = Inr True"
    and "scanLines (resolveName optName) (splitOn 10 content) 0
           \<lparr>componentStart = None, componentEnd = None, hashLine = None,
            lastImportLine = None\<rparr> = s"
    and "componentStart s = Some cs" and "componentEnd s = Some ce"
  shows "injectLines libs content vs h optImport optName =
           Inr (relocateLines (splitOn 10 content) s cs ce (hashCommentOf h)
                  (componentCodeOf libs (resolveName optName) vs))"
  by (simp add: injectLines_def Let_def assms)

lemma fenced_tag_relocated:
  "injectLines fencedLibs fencedDoc (voicesOf scenarioUrl) (js ''deadbeef'') None None =
     Inr [[], hashText, componentText, js ''# Player'', [], [96, 96, 96] @ js ''jsx'',
          [96, 96, 96], []]"
proof -
  have comp: "componentCodeOf fencedLibs (resolveName None) (voicesOf scenarioUrl)
                = componentText"
    by (rule sample_component) (simp add: fencedLibs_def tablePlatform_def)
  have "injectLines fencedLibs fencedDoc (voicesOf scenarioUrl) (js ''deadbeef'') None None =
          Inr (relocateLines (splitOn 10 fencedDoc)
                 \<lparr>componentStart = Some 3, componentEnd = Some 3, hashLine = None,
                  lastImportLine = None\<rparr> 3 3 (hashCommentOf (js ''deadbeef''))
                 (componentCodeOf fencedLibs (resolveName None) (voicesOf scenarioUrl)))"
    by (rule injectLines_relocate [OF fenced_present])
       (simp_all only: fenced_lines fenced_scan scan_state.simps)
  also have "\<dots> = Inr [[], hashText, componentText, js ''# Player'', [],
                         [96, 96, 96] @ js ''jsx'', [96, 96, 96], []]"
    unfolding comp sample_hash fenced_lines
    by (simp add: relocateLines_def spliceDelete_def spliceInsert_def)
  finally show ?thesis .
qed

section \<open>Skipping unchanged documents\<close>

lemma voicesMatch_iff:
  "voicesMatch existingIds requestedIds \<longleftrightarrow>
     length existingIds = length requestedIds \<and> idValue ` set requestedIds \<subseteq> set existingIds"
  by (auto simp: voicesMatch_def list_all_iff idValue_def)

lemma card_idValue: "card (idValue ` set xs) = card (set xs)"
  by (rule card_image) (simp add: inj_on_def idValue_def)

lemma voicesMatch_distinct:
  assumes "distinct existingIds" and "distinct requestedIds"
  shows "voicesMatch existingIds requestedIds \<longleftrightarrow> idValue ` set requestedIds = set existingIds"
proof
  assume m: "voicesMatch existingIds requestedIds"
  then have "card (idValue ` set requestedIds) = card (set existingIds)"
    using assms by (simp add: voicesMatch_iff distinct_card card_idValue)
  moreover have "idValue ` set requestedIds \<subseteq> set existingIds"
    using m by (simp add: voicesMatch_iff)
  ultimately show "idValue ` set requestedIds = set existingIds"
    by (simp add: card_subset_eq)
next
  assume e: "idValue ` set requestedIds = set existingIds"
  then have "card (set requestedIds) = card (set existingIds)"
    by (simp add: card_idValue [symmetric])
  then have "length requestedIds = length existingIds"
    using assms by (simp add: distinct_card)
  with e show "voicesMatch existingIds requestedIds"
    by (simp add: voicesMatch_iff)
qed

lemma processFile_located:
  assumes "extractCleanText libs content = Inr text" and "trim text \<noteq> []"
    and "extractExistingAudioData libs content (componentName cfg) = Inr (Some d)"
  shows "(isUnchanged (Some d) (generateHash libs text) (configVoiceIds cfg)
            \<longrightarrow> processFile libs cfg st path content = (Inr (ContentUnchanged (voices d)), content, st))
       \<and> (\<not> isUnchanged (Some d) (generateHash libs text) (configVoiceIds cfg)
            \<longrightarrow> regenerates cfg (fst (processFile libs cfg st path content)))"
  using assms
  by (auto simp: processFile_def Let_def regenerates_def map_vid_mockVoices
        map_vid_uploadedVoices split: sum.splits prod.splits)

text \<open>
  C1, the code.  For a document whose text extraction gives a non-blank text and whose
  narration block is located, the outcome is "content unchanged" exactly when the recorded
  fingerprint equals the fingerprint of the extracted text, the list of recorded ids is as
  long as the list of requested ids, and every requested id occurs among the recorded ids.
  When neither list repeats an id this is: the fingerprints agree and the two lists are
  equal as sets.  A skipped document is returned as it was, and the store is untouched.
  In every other case the run goes on to regeneration: it ends in an error, in a dry-run
  preview or in a generated block, and the voices of the preview or the block are the
  whole requested list, in order.  The test compares the lengths of the lists, not the
  sizes of the sets, and so misses a change of the voice set when an id is requested twice.
\<close>

theorem skip_unchanged_iff:
  assumes "extractCleanText libs content = Inr text" and "trim text \<noteq> []"
    and "extractExistingAudioData libs content (componentName cfg) = Inr (Some d)"
  shows "(fst (processFile libs cfg st path content) = Inr (ContentUnchanged (voices d))
            \<longleftrightarrow> hash d = Some (generateHash libs text)
                \<and> length (voiceIds d) = length (configVoiceIds cfg)
                \<and> idValue ` set (configVoiceIds cfg) \<subseteq> set (voiceIds d))
       \<and> (distinct (configVoiceIds cfg) \<and> distinct (voiceIds d) \<longrightarrow>
            (fst (processFile libs cfg st path content) = Inr (ContentUnchanged (voices d))
               \<longleftrightarrow> hash d = Some (generateHash libs text)
                   \<and> idValue ` set (configVoiceIds cfg) = set (voiceIds d)))
       \<and> (fst (processFile libs cfg st path content) = Inr (ContentUnchanged (voices d))
            \<longrightarrow> processFile libs cfg st path content
                  = (Inr (ContentUnchanged (voices d)), content, st))
       \<and> (fst (processFile libs cfg st path content) \<noteq> Inr (ContentUnchanged (voices d))
            \<longrightarrow> regenerates cfg (fst (processFile libs cfg st path content)))"
proof -
  define r where "r = processFile libs cfg st path content"
  define u where "u = isUnchanged (Some d) (generateHash libs text) (configVoiceIds cfg)"
  have yes: "r = (Inr (ContentUnchanged (voices d)), content, st)" if u
    using processFile_located [OF assms, of st path] that by (simp add: r_def u_def)
  have no: "regenerates cfg (fst r)" if "\<not> u"
    using processFile_located [OF assms, of st path] that by (simp add: r_def u_def)
  have iff: "fst r = Inr (ContentUnchanged (voices d)) \<longleftrightarrow> u"
  proof
    assume a: "fst r = Inr (ContentUnchanged (voices d))"
    show u
    proof (rule ccontr)
      assume "\<not> u"
      from no [OF this] a show False
        by (simp add: regenerates_def)
    qed
  next
    assume u
    from yes [OF this] show "fst r = Inr (ContentUnchanged (voices d))"
      by simp
  qed
  have u_eq: "u \<longleftrightarrow> hash d = Some (generateHash libs text)
                   \<and> length (voiceIds d) = length (configVoiceIds cfg)
                   \<and> idValue ` set (configVoiceIds cfg) \<subseteq> set (voiceIds d)"
    by (simp add: u_def isUnchanged_def voicesMatch_iff)
  have u_set: "u \<longleftrightarrow> hash d = Some (generateHash libs text)
                    \<and> idValue ` set (configVoiceIds cfg) = set (voiceIds d)"
    if "distinct (configVoiceIds cfg)" "distinct (voiceIds d)"
    using voicesMatch_distinct [OF that(2) that(1)] by (simp add: u_def isUnchanged_def)
  show ?thesis
    unfolding r_def [symmetric] iff
    using u_eq u_set yes no by blast
qed

lemma block_text: "extractCleanText blockLibs blockDoc = Inr (js ''Hello'')"
  by (rule annotated_text [where fp = helloDigest and src = twoVoicesJson])
     (simp_all add: blockLibs_def tablePlatform_def blockTree_def)

lemma digest_match:
  "hashMatch (js ''/* speak-mintlify-hash: '' @ helloDigest @ js '' */'') = Some helloDigest"
  by (simp add: helloDigest_def js_def matchHashAt_def stripPrefix_def isSpace_def isHex_def)

lemma block_located:
  "extractExistingAudioData blockLibs blockDoc (js ''AudioTranscript'') =
     Inr (Some \<lparr>hash = Some helloDigest, voiceIds = [idValue (js ''v1''), idValue (js ''v2'')],
                voices = map jsonOfVoice twoVoices\<rparr>)"
proof -
  have walk: "walkAudio (jsonParse blockLibs) (js ''AudioTranscript'') blockTree
                \<lparr>foundHash = None, foundVoices = JArray []\<rparr>
              = \<lparr>foundHash = Some helloDigest, foundVoices = jsonOfVoices twoVoices\<rparr>"
    by (simp add: blockTree_def annotatedTree_def helloParagraph_def visitAudio_def digest_match
          blockLibs_def tablePlatform_def truthyValue_def jsonSource_def Let_def)
  have "parseMDX blockLibs blockDoc = Inr blockTree"
    by (simp add: blockLibs_def tablePlatform_def)
  then show ?thesis
    by (simp add: extractExistingAudioData_def walk jsonOfVoices_def lengthOf_def
          isPositive_def twoVoices_def jsonOfVoice_def propertyOf_def idValue_def)
qed

lemma block_hash: "generateHash blockLibs (js ''Hello'') = helloDigest"
  by (simp add: generateHash_def blockLibs_def tablePlatform_def)

theorem skip_unchanged_iff_witness:
  "processFile blockLibs swappedConfig emptyStore (js ''a.mdx'') blockDoc
     = (Inr (ContentUnchanged (map jsonOfVoice twoVoices)), blockDoc, emptyStore)
   \<and> idValue ` set (configVoiceIds swappedConfig) = set [idValue (js ''v1''), idValue (js ''v2'')]"
proof -
  have name: "componentName swappedConfig = js ''AudioTranscript''"
    by (simp add: swappedConfig_def sampleConfig_def defaultComponentName_def)
  have ids: "configVoiceIds swappedConfig = [js ''v2'', js ''v1'']"
    by (simp add: swappedConfig_def)
  note main = skip_unchanged_iff
    [OF block_text hello_nonblank block_located [folded name],
     of emptyStore "js ''a.mdx''"]
  have "fst (processFile blockLibs swappedConfig emptyStore (js ''a.mdx'') blockDoc)
          = Inr (ContentUnchanged (map jsonOfVoice twoVoices))"
    using main by (simp add: block_hash ids)
  with main show ?thesis
    by (auto simp: ids)
qed

text \<open>
  The failing input of C1.  The document records the digest of its text and the ids
  \<open>v1, v2\<close>; the ids \<open>v1, v1\<close> are requested.  The two lists have the same length and
  every requested id is recorded, so the document is skipped, although the requested ids
  and the recorded ids differ as sets.
\<close>

theorem skip_set_identity_counterexample:
  "generateHash blockLibs (js ''Hello'') = helloDigest
   \<and> extractExistingAudioData blockLibs blockDoc (componentName dupConfig) =
       Inr (Some \<lparr>hash = Some helloDigest,
                  voiceIds = [idValue (js ''v1''), idValue (js ''v2'')],
                  voices = map jsonOfVoice twoVoices\<rparr>)
   \<and> configVoiceIds dupConfig = [js ''v1'', js ''v1'']
   \<and> processFile blockLibs dupConfig emptyStore (js ''a.mdx'') blockDoc
       = (Inr (ContentUnchanged (map jsonOfVoice twoVoices)), blockDoc, emptyStore)
   \<and> idValue ` set (configVoiceIds dupConfig) \<noteq> set [idValue (js ''v1''), idValue (js ''v2'')]"
proof -
  have name: "componentName dupConfig = js ''AudioTranscript''"
    by (simp add: dupConfig_def sampleConfig_def defaultComponentName_def)
  have ids: "configVoiceIds dupConfig = [js ''v1'', js ''v1'']"
    by (simp add: dupConfig_def)
  have "isUnchanged
          (Some \<lparr>hash = Some helloDigest, voiceIds = [idValue (js ''v1''), idValue (js ''v2'')],
                  voices = map jsonOfVoice twoVoices\<rparr>)
          (generateHash blockLibs (js ''Hello'')) (configVoiceIds dupConfig)"
    by (simp add: isUnchanged_def voicesMatch_def block_hash ids idValue_def)
  with processFile_located
         [OF block_text hello_nonblank block_located [folded name],
          of emptyStore "js ''a.mdx''"]
  have skipped: "processFile blockLibs dupConfig emptyStore (js ''a.mdx'') blockDoc
          = (Inr (ContentUnchanged (map jsonOfVoice twoVoices)), blockDoc, emptyStore)"
    by simp
  have differ: "idValue ` set (configVoiceIds dupConfig)
                  \<noteq> set [idValue (js ''v1''), idValue (js ''v2'')]"
    by (simp add: ids idValue_def js_def)
  from block_hash block_located [folded name] ids skipped differ show ?thesis
    by simp
qed

section \<open>Storage keys\<close>

lemma stripMdx_dropExtension:
  assumes "endsWith filePath (js ''.mdx'')"
  shows "stripMdx filePath = dropExtension filePath"
proof -
  from assms obtain p where p: "filePath = p @ js ''.mdx''"
    by (auto simp: endsWith_def suffix_def)
  have "stripMdx filePath = p"
    using assms by (simp add: stripMdx_def) (simp add: p js_def)
  moreover have "dropExtension filePath = p"
    by (simp add: dropExtension_def p js_def)
  ultimately show ?thesis
    by simp
qed

text \<open>
  C9 (amended).  The storage key is \<open>prefix/slug/voiceId.mp3\<close>, where the prefix is the
  configured path prefix, or \<open>audio\<close> when none (or an empty one) is configured; the slug
  is the lower-cased, \<open>-\<close>-joined last two \<open>/\<close>-segments of the path without its
  extension when the path ends in \<open>.mdx\<close>, and of the whole path otherwise; the
  branch-namespaced key has \<open>branch/\<close> between the prefix and the slug.
\<close>

theorem generateKey_layout:
  "generateKey libs cfg filePath voiceId =
     (case pathPrefix cfg of None \<Rightarrow> js ''audio'' | Some p \<Rightarrow> if p = [] then js ''audio'' else p)
     @ js ''/''
     @ (if endsWith filePath (js ''.mdx'') then slugSpec libs filePath
        else toLowerCase libs (joinWith (js ''-'') (lastTwo (splitOn 47 filePath))))
     @ js ''/'' @ voiceId @ js ''.mp3''
   \<and> generateKeyBranch libs cfg branch filePath voiceId =
     (case pathPrefix cfg of None \<Rightarrow> js ''audio'' | Some p \<Rightarrow> if p = [] then js ''audio'' else p)
     @ js ''/'' @ branch @ js ''/''
     @ (if endsWith filePath (js ''.mdx'') then slugSpec libs filePath
        else toLowerCase libs (joinWith (js ''-'') (lastTwo (splitOn 47 filePath))))
     @ js ''/'' @ voiceId @ js ''.mp3''"
proof (cases "endsWith filePath (js ''.mdx'')")
  case True
  have "slugOf libs filePath = slugSpec libs filePath"
    by (simp add: slugOf_def slugSpec_def stripMdx_dropExtension [OF True])
  with True show ?thesis
    by (simp add: generateKey_def generateKeyBranch_def prefixOf_def)
next
  case False
  then have "slugOf libs filePath
               = toLowerCase libs (joinWith (js ''-'') (lastTwo (splitOn 47 filePath)))"
    by (simp add: slugOf_def stripMdx_def)
  with False show ?thesis
    by (simp add: generateKey_def generateKeyBranch_def prefixOf_def)
qed

lemma guide_path_split:
  "splitOn 47 (js ''developer-guide/getting-started/Introduction'')
     = [js ''developer-guide'', js ''getting-started'', js ''Introduction'']"
  by (simp add: js_def)

lemma guide_path_ext:
  "dropExtension (js ''developer-guide/getting-started/Introduction.mdx'')
     = js ''developer-guide/getting-started/Introduction''"
  by (simp add: dropExtension_def js_def)

theorem generateKey_layout_witness:
  "generateKey plainLibs defaultS3 (js ''developer-guide/getting-started/Introduction.mdx'')
     (js ''v1'') = js ''audio/getting-started-introduction/v1.mp3''
   \<and> generateKeyBranch plainLibs defaultS3 (js ''main'')
       (js ''developer-guide/getting-started/Introduction.mdx'') (js ''v1'')
     = js ''audio/main/getting-started-introduction/v1.mp3''"
proof -
  have ends: "endsWith (js ''developer-guide/getting-started/Introduction.mdx'') (js ''.mdx'')"
    by (simp add: endsWith_def js_def suffix_to_prefix)
  have slug: "slugSpec plainLibs (js ''developer-guide/getting-started/Introduction.mdx'')
                = js ''getting-started-introduction''"
    by (simp add: slugSpec_def guide_path_ext guide_path_split lastTwo_def plainLibs_def
          tablePlatform_def)
       (simp add: js_def asciiLower_def)
  from generateKey_layout
         [of plainLibs defaultS3 "js ''developer-guide/getting-started/Introduction.mdx''"
             "js ''v1''" "js ''main''"]
  show ?thesis
    by (simp add: ends slug defaultS3_def) (simp add: js_def)
qed

text \<open>
  The claim as stated (the file extension is dropped for every document path) fails for
  a document that is not an \<open>.mdx\<close> file: the extension stays in the slug.
\<close>

theorem generateKey_extension_counterexample:
  "generateKey plainLibs defaultS3 (js ''guides/intro.md'') (js ''v1'')
     = js ''audio/guides-intro.md/v1.mp3''
   \<and> js ''audio/'' @ slugSpec plainLibs (js ''guides/intro.md'') @ js ''/v1.mp3''
     = js ''audio/guides-intro/v1.mp3''
   \<and> generateKey plainLibs defaultS3 (js ''guides/intro.md'') (js ''v1'')
     \<noteq> js ''audio/'' @ slugSpec plainLibs (js ''guides/intro.md'') @ js ''/v1.mp3''"
proof -
  have split: "splitOn 47 (js ''guides/intro.md'') = [js ''guides'', js ''intro.md'']"
    "splitOn 47 (js ''guides/intro'') = [js ''guides'', js ''intro'']"
    by (simp_all add: js_def)
  have ext: "dropExtension (js ''guides/intro.md'') = js ''guides/intro''"
    by (simp add: dropExtension_def js_def)
  have strip: "stripMdx (js ''guides/intro.md'') = js ''guides/intro.md''"
    by (simp add: stripMdx_def endsWith_def js_def suffix_to_prefix)
  have key: "generateKey plainLibs defaultS3 (js ''guides/intro.md'') (js ''v1'')
               = js ''audio/guides-intro.md/v1.mp3''"
    by (simp add: generateKey_def slugOf_def strip split lastTwo_def prefixOf_def defaultS3_def
          plainLibs_def tablePlatform_def)
       (simp add: js_def asciiLower_def)
  have spec: "js ''audio/'' @ slugSpec plainLibs (js ''guides/intro.md'') @ js ''/v1.mp3''
                = js ''audio/guides-intro/v1.mp3''"
    by (simp add: slugSpec_def ext split lastTwo_def plainLibs_def tablePlatform_def)
       (simp add: js_def asciiLower_def)
  have "js ''audio/guides-intro.md/v1.mp3'' \<noteq> js ''audio/guides-intro/v1.mp3''"
    by (simp add: js_def)
  with key spec show ?thesis
    by simp
qed

section \<open>Post-processing of the extracted text\<close>

lemma lead3: "3 \<le> length (takeWhile (\<lambda>x. x = (10::nat)) s) \<longleftrightarrow> prefix [10, 10, 10] s"
  by (cases s; cases "tl s"; cases "tl (tl s)") (auto split: if_splits)

lemma lead_dropWhile: "takeWhile P (dropWhile P xs) = []"
  by (induction xs) simp_all

lemma lead_collapseNewlines:
  "length (takeWhile (\<lambda>x. x = 10) (collapseNewlines s))
     = min 2 (length (takeWhile (\<lambda>x. x = 10) s))"
proof (induction s rule: collapseNewlines.induct)
  case 1
  then show ?case by simp
next
  case (2 c cs)
  show ?case
  proof (cases "c = 10 \<and> 2 \<le> length (takeWhile (\<lambda>x. x = 10) cs)")
    case True
    with "2.IH"(1) show ?thesis
      by (simp add: lead_dropWhile)
  next
    case False
    with "2.IH"(2) show ?thesis
      by (cases "c = 10") auto
  qed
qed

lemma collapseNewlines_no_triple: "\<not> sublist [10, 10, 10] (collapseNewlines s)"
proof (induction s rule: collapseNewlines.induct)
  case 1
  then show ?case by simp
next
  case (2 c cs)
  have pre: "\<not> prefix [10, 10, 10] (collapseNewlines t)" for t
    using lead_collapseNewlines [of t] by (simp flip: lead3)
  show ?case
  proof (cases "c = 10 \<and> 2 \<le> length (takeWhile (\<lambda>x. x = 10) cs)")
    case True
    define R where "R = collapseNewlines (dropWhile (\<lambda>x. x = 10) cs)"
    have out: "collapseNewlines (c # cs) = 10 # 10 # R"
      using True by (simp add: R_def)
    have "length (takeWhile (\<lambda>x. x = 10) R) = 0"
      by (simp add: R_def lead_collapseNewlines lead_dropWhile)
    then have inner: "\<not> prefix [10, 10, 10] (10 # R)"
      by (cases R) (auto split: if_splits)
    have "\<not> sublist [10, 10, 10] R"
      using "2.IH"(1) True by (simp add: R_def)
    with inner pre [of "c # cs"] show ?thesis
      unfolding out by (simp add: sublist_Cons_right)
  next
    case False
    then have out: "collapseNewlines (c # cs) = c # collapseNewlines cs"
      by auto
    have "\<not> sublist [10, 10, 10] (collapseNewlines cs)"
      using "2.IH"(2) False by simp
    with pre [of "c # cs"] show ?thesis
      unfolding out by (simp add: sublist_Cons_right)
  qed
qed

lemma trim_sublist: "sublist (trim s) s"
proof -
  define m where "m = dropWhile isSpace s"
  have "m = rev (rev m)" by simp
  also have "rev m = takeWhile isSpace (rev m) @ dropWhile isSpace (rev m)"
    by simp
  finally have "m = rev (dropWhile isSpace (rev m)) @ rev (takeWhile isSpace (rev m))"
    by (simp only: rev_append)
  then have "prefix (trim s) m"
    unfolding trim_def m_def [symmetric] by (metis prefixI)
  moreover have "suffix m s"
    unfolding m_def by (rule suffix_dropWhile)
  ultimately show ?thesis
    by (meson prefix_imp_sublist suffix_imp_sublist sublist_order.order.trans)
qed

lemma trim_ends:
  "trim s = [] \<or> (\<not> isSpace (hd (trim s)) \<and> \<not> isSpace (last (trim s)))"
proof (cases "trim s = []")
  case True
  then show ?thesis by simp
next
  case False
  define m where "m = dropWhile isSpace s"
  define d where "d = dropWhile isSpace (rev m)"
  have t: "trim s = rev d"
    by (simp add: trim_def m_def d_def)
  from False have dne: "d \<noteq> []"
    by (simp add: t)
  have "\<not> isSpace (hd d)"
    using dne unfolding d_def by (rule hd_dropWhile)
  then have lst: "\<not> isSpace (last (trim s))"
    using dne by (simp add: t last_rev)
  have mne: "m \<noteq> []"
    using dne by (auto simp: d_def)
  have hm: "\<not> isSpace (hd m)"
    using mne unfolding m_def by (rule hd_dropWhile)
  have "rev m = takeWhile isSpace (rev m) @ d"
    by (simp add: d_def)
  then have "m = rev d @ rev (takeWhile isSpace (rev m))"
    by (metis rev_append rev_rev_ident)
  then have "hd m = hd (rev d)"
    using dne by (metis hd_append2 rev_is_Nil_conv)
  with hm have "\<not> isSpace (hd (trim s))"
    by (simp add: t)
  with lst show ?thesis
    by simp
qed

lemma not_space_marks: "\<not> isSpace 44" "\<not> isSpace 46" "\<not> isSpace 58" "\<not> isSpace 92"
  by (simp_all add: isSpace_def)

lemma dropWhile_spaces:
  assumes "list_all isSpace ws" and "\<not> isSpace x"
  shows "dropWhile isSpace (ws @ x # rest) = x # rest"
  using assms by (induction ws) simp_all

text \<open>
  C5 (amended).  The post-processing is the seven stages below, in this order.  Its
  result never holds three consecutive newlines and neither starts nor ends with white
  space.  A colon followed by optional white space and a period becomes the period alone
  (the colon is dropped); a colon followed by optional white space and commas becomes
  \<open>: \<close>, which also swallows the commas and the white space after them.
\<close>

theorem postProcess_normal_form:
  "postProcess s =
     trim (collapseNewlines (colonPeriod (colonCommas (collapseCommaRuns
       (collapseBeforeComma (unescapeMarkdown s))))))
   \<and> \<not> includesStr (postProcess s) [10, 10, 10]
   \<and> (postProcess s = []
        \<or> (\<not> isSpace (hd (postProcess s)) \<and> \<not> isSpace (last (postProcess s))))
   \<and> (list_all isSpace ws \<longrightarrow> colonPeriod (58 # ws @ 46 # rest) = 46 # colonPeriod rest)
   \<and> (list_all isSpace ws \<longrightarrow>
        colonCommas (58 # ws @ 44 # rest)
          = 58 # 32 # colonCommas (dropWhile isSpace (dropWhile (\<lambda>x. x = 44) rest)))"
proof -
  have triple: "\<not> includesStr (postProcess s) [10, 10, 10]"
  proof
    assume "includesStr (postProcess s) [10, 10, 10]"
    then have "sublist [10, 10, 10] (postProcess s)"
      by (simp add: includesStr_sublist)
    moreover have "sublist (postProcess s)
        (collapseNewlines (colonPeriod (colonCommas (collapseCommaRuns
           (collapseBeforeComma (unescapeMarkdown s))))))"
      unfolding postProcess_def by (rule trim_sublist)
    ultimately show False
      using collapseNewlines_no_triple sublist_order.order.trans by blast
  qed
  have ends: "postProcess s = []
        \<or> (\<not> isSpace (hd (postProcess s)) \<and> \<not> isSpace (last (postProcess s)))"
    unfolding postProcess_def by (rule trim_ends)
  have period: "colonPeriod (58 # ws @ 46 # rest) = 46 # colonPeriod rest"
    if "list_all isSpace ws"
    by (simp add: dropWhile_spaces [OF that not_space_marks(2)] startsPeriod_def)
  have commas: "colonCommas (58 # ws @ 44 # rest)
          = 58 # 32 # colonCommas (dropWhile isSpace (dropWhile (\<lambda>x. x = 44) rest))"
    if "list_all isSpace ws"
    by (simp add: dropWhile_spaces [OF that not_space_marks(1)] startsComma_def)
  from triple ends period commas show ?thesis
    by (simp add: postProcess_def)
qed

lemma postProcess_note: "postProcess noteText = js ''*Note*,x.'' @ [10, 10] @ js ''y''"
  by (simp add: noteText_def postProcess_def js_def isEscapable_def startsComma_def
        startsPeriod_def isSpace_def trim_def)

theorem postProcess_normal_form_witness:
  "postProcess noteText = js ''*Note*,x.'' @ [10, 10] @ js ''y''
   \<and> \<not> includesStr (postProcess noteText) [10, 10, 10]
   \<and> colonPeriod [58, 32, 46] = [46]"
proof -
  have sp: "list_all isSpace [32]"
    by (simp add: isSpace_def)
  note main = postProcess_normal_form [of noteText "[32]" "[]"]
  from main have triple: "\<not> includesStr (postProcess noteText) [10, 10, 10]"
    by blast
  from main have "list_all isSpace [32] \<longrightarrow> colonPeriod (58 # [32] @ 46 # []) = 46 # colonPeriod []"
    by blast
  with sp have "colonPeriod (58 # [32] @ 46 # []) = 46 # colonPeriod []"
    by blast
  then have period: "colonPeriod [58, 32, 46] = [46]"
    by simp
  from postProcess_note triple period show ?thesis
    by blast
qed

text \<open>
  The claim as stated lists no rewrite that drops a colon; read with its third rewrite
  (a colon followed only by punctuation becomes \<open>: \<close>) a colon before a period would
  stay.  The code turns \<open>a:.\<close> into \<open>a.\<close>.
\<close>

theorem postProcess_colon_period_counterexample:
  "postProcess (js ''a:.'') = js ''a.''
   \<and> postProcessClaimed (js ''a:.'') = js ''a:''
   \<and> postProcess (js ''a:.'') \<noteq> postProcessClaimed (js ''a:.'')"
proof -
  have code: "postProcess (js ''a:.'') = js ''a.''"
    by (simp add: postProcess_def js_def isEscapable_def startsComma_def startsPeriod_def
          isSpace_def trim_def)
  have claimed: "postProcessClaimed (js ''a:.'') = js ''a:''"
    by (simp add: postProcessClaimed_def js_def isEscapable_def startsComma_def
          startsPunctuation_def isSpace_def trim_def)
  have "js ''a.'' \<noteq> js ''a:''"
    by (simp add: js_def)
  with code claimed show ?thesis
    by simp
qed

section \<open>Extraction of the narration text\<close>

lemma space_not_mark:
  assumes "isSpace c"
  shows "c \<noteq> 44" "c \<noteq> 46" "c \<noteq> 58" "c \<noteq> 92"
  using assms not_space_marks by auto

lemma unescapeMarkdown_spaces: "list_all isSpace s \<Longrightarrow> unescapeMarkdown s = s"
proof (induction s rule: unescapeMarkdown.induct)
  case (1 a b rest)
  from "1.prems" have a: "isSpace a" and rest: "list_all isSpace (b # rest)"
    by simp_all
  from a have ne: "a \<noteq> 92"
    by (auto dest: space_not_mark)
  then have cond: "\<not> (a = 92 \<and> isEscapable b)"
    by simp
  from "1.IH"(2) [OF cond rest] ne show ?case
    by simp
qed simp_all

lemma collapseBeforeComma_spaces: "list_all isSpace s \<Longrightarrow> collapseBeforeComma s = s"
proof (induction s rule: collapseBeforeComma.induct)
  case 1
  then show ?case by simp
next
  case (2 c cs)
  from "2.prems" have c: "isSpace c" and cs: "list_all isSpace cs"
    by simp_all
  from c have ne: "c \<noteq> 58" "c \<noteq> 44"
    by (auto dest: space_not_mark)
  then have cond: "\<not> ((c = 58 \<or> c = 44) \<and> startsComma (dropWhile isSpace cs))"
    by simp
  from "2.IH"(2) [OF cond cs] ne show ?case
    by simp
qed

lemma collapseCommaRuns_spaces: "list_all isSpace s \<Longrightarrow> collapseCommaRuns s = s"
proof (induction s rule: collapseCommaRuns.induct)
  case 1
  then show ?case by simp
next
  case (2 c cs)
  from "2.prems" have c: "isSpace c" and cs: "list_all isSpace cs"
    by simp_all
  from c have ne: "c \<noteq> 58" "c \<noteq> 44"
    by (auto dest: space_not_mark)
  then have cond: "\<not> (c = 44 \<and> startsComma (dropWhile isSpace cs))"
    by simp
  from "2.IH"(2) [OF cond cs] ne show ?case
    by simp
qed

lemma colonCommas_spaces: "list_all isSpace s \<Longrightarrow> colonCommas s = s"
proof (induction s rule: colonCommas.induct)
  case 1
  then show ?case by simp
next
  case (2 c cs)
  from "2.prems" have c: "isSpace c" and cs: "list_all isSpace cs"
    by simp_all
  from c have ne: "c \<noteq> 58" "c \<noteq> 44"
    by (auto dest: space_not_mark)
  then have cond: "\<not> (c = 58 \<and> startsComma (dropWhile isSpace cs))"
    by simp
  from "2.IH"(2) [OF cond cs] ne show ?case
    by simp
qed

lemma colonPeriod_spaces: "list_all isSpace s \<Longrightarrow> colonPeriod s = s"
proof (induction s rule: colonPeriod.induct)
  case 1
  then show ?case by simp
next
  case (2 c cs)
  from "2.prems" have c: "isSpace c" and cs: "list_all isSpace cs"
    by simp_all
  from c have ne: "c \<noteq> 58" "c \<noteq> 44"
    by (auto dest: space_not_mark)
  then have cond: "\<not> (c = 58 \<and> startsPeriod (dropWhile isSpace cs))"
    by simp
  from "2.IH"(2) [OF cond cs] ne show ?case
    by simp
qed

lemma set_collapseNewlines: "set (collapseNewlines s) \<subseteq> set s"
proof (induction s rule: collapseNewlines.induct)
  case 1
  then show ?case by simp
next
  case (2 c cs)
  show ?case
  proof (cases "c = 10 \<and> 2 \<le> length (takeWhile (\<lambda>x. x = 10) cs)")
    case True
    have "set (dropWhile (\<lambda>x. x = 10) cs) \<subseteq> set cs"
      by (auto dest: set_dropWhileD)
    with "2.IH"(1) True show ?thesis
      by auto
  next
    case False
    with "2.IH"(2) show ?thesis
      by auto
  qed
qed

lemma trim_spaces:
  assumes "list_all isSpace s"
  shows "trim s = []"
proof -
  have d: "dropWhile isSpace s = []"
    using assms by (simp only: dropWhile_eq_Nil_conv list_all_iff)
  show ?thesis
    unfolding trim_def d by simp
qed

lemma postProcess_spaces:
  assumes "list_all isSpace s"
  shows "postProcess s = []"
proof -
  have "list_all isSpace (collapseNewlines s)"
    using assms set_collapseNewlines [of s] by (auto simp: list_all_iff)
  then show ?thesis
    using assms
    by (simp add: postProcess_def unescapeMarkdown_spaces collapseBeforeComma_spaces
          collapseCommaRuns_spaces colonCommas_spaces colonPeriod_spaces trim_spaces)
qed

text \<open>
  C4 (amended).  \<open>extractCleanText\<close> raises no error of its own and catches none: it
  fails exactly when the front-matter reader, the parser or the plain-text stringifier
  fails on this document, with that error.  Otherwise it returns the post-processed text
  of the stringifier's output, and that text is empty whenever the output is white space
  only.
\<close>

theorem extractCleanText_outcomes:
  "(extractCleanText libs mdx = Inl e \<longleftrightarrow>
      matter libs mdx = Inl e
      \<or> (\<exists>content. matter libs mdx = Inr content
            \<and> (parseMDX libs content = Inl e
               \<or> (\<exists>tree. parseMDX libs content = Inr tree
                     \<and> plainText libs (remarkRemoveJSX (removeEsm libs tree)) = Inl e))))
   \<and> (\<forall>r. extractCleanText libs mdx = Inr r \<longrightarrow>
        (\<exists>content tree s. matter libs mdx = Inr content \<and> parseMDX libs content = Inr tree
           \<and> plainText libs (remarkRemoveJSX (removeEsm libs tree)) = Inr s
           \<and> r = postProcess s \<and> (list_all isSpace s \<longrightarrow> r = [])))"
proof -
  have fails: "extractCleanText libs mdx = Inl e \<longleftrightarrow>
      matter libs mdx = Inl e
      \<or> (\<exists>content. matter libs mdx = Inr content
            \<and> (parseMDX libs content = Inl e
               \<or> (\<exists>tree. parseMDX libs content = Inr tree
                     \<and> plainText libs (remarkRemoveJSX (removeEsm libs tree)) = Inl e)))"
    by (auto simp: extractCleanText_def split: sum.splits)
  have returns: "\<exists>content tree s. matter libs mdx = Inr content \<and> parseMDX libs content = Inr tree
           \<and> plainText libs (remarkRemoveJSX (removeEsm libs tree)) = Inr s
           \<and> r = postProcess s \<and> (list_all isSpace s \<longrightarrow> r = [])"
    if "extractCleanText libs mdx = Inr r" for r
    using that by (auto simp: extractCleanText_def postProcess_spaces split: sum.splits)
  from fails returns show ?thesis
    by blast
qed

lemma empty_document_text: "extractCleanText emptyLibs [] = Inr []"
proof -
  have "remarkRemoveJSX (removeEsmNodes emptyRoot) = emptyRoot"
    by (simp add: removeEsmNodes_def emptyRoot_def)
  then show ?thesis
    by (simp add: extractCleanText_def emptyLibs_def tablePlatform_def postProcess_def trim_def)
qed

theorem extractCleanText_outcomes_witness:
  "extractCleanText blockLibs blockDoc = Inr (js ''Hello'')
   \<and> (\<exists>content tree s. matter blockLibs blockDoc = Inr content
         \<and> parseMDX blockLibs content = Inr tree
         \<and> plainText blockLibs (remarkRemoveJSX (removeEsm blockLibs tree)) = Inr s
         \<and> js ''Hello'' = postProcess s)"
proof -
  from extractCleanText_outcomes [of blockLibs blockDoc MdxSyntaxError]
  have "\<forall>r. extractCleanText blockLibs blockDoc = Inr r \<longrightarrow>
        (\<exists>content tree s. matter blockLibs blockDoc = Inr content
           \<and> parseMDX blockLibs content = Inr tree
           \<and> plainText blockLibs (remarkRemoveJSX (removeEsm blockLibs tree)) = Inr s
           \<and> r = postProcess s \<and> (list_all isSpace s \<longrightarrow> r = []))"
    by blast
  with block_text show ?thesis
    by blast
qed

text \<open>
  The claim as stated (the result is never empty) fails on the empty document, for which
  front-matter removal, parsing and stringification give the empty string.
\<close>

theorem extractCleanText_empty_counterexample:
  "extractCleanText emptyLibs [] = Inr [] \<and> parseMDX emptyLibs [] = Inr emptyRoot
   \<and> plainText emptyLibs emptyRoot = Inr []"
  by (simp add: empty_document_text) (simp add: emptyLibs_def tablePlatform_def)

section \<open>The injected block next to the import statement\<close>

lemma trim_self:
  assumes "s \<noteq> []" and "\<not> isSpace (hd s)" and "\<not> isSpace (last s)"
  shows "trim s = s"
proof -
  have front: "dropWhile isSpace s = s"
    using assms(1,2) by (cases s) simp_all
  have "rev s \<noteq> []" "\<not> isSpace (hd (rev s))"
    using assms(1,3) by (simp_all add: hd_rev)
  then have "dropWhile isSpace (rev s) = rev s"
    by (cases "rev s") simp_all
  with front show ?thesis
    by (simp add: trim_def)
qed

lemma trim_importStatement: "trim (importStatementOf cname imp) \<noteq> []"
proof -
  have "trim (importStatementOf cname imp) = importStatementOf cname imp"
    by (rule trim_self) (simp_all add: importStatementOf_def js_def isSpace_def)
  then show ?thesis
    by (simp add: importStatement_distinct)
qed

lemma insertLines_adjacent:
  assumes "p \<le> length ls" and "trim stmt \<noteq> []"
  shows "insertLines ls False p p stmt hc cc = take p ls @ [stmt, hc, cc, []] @ drop p ls"
proof -
  define A where "A = take p ls"
  define B where "B = drop p ls"
  have lenA: "length A = p"
    using assms(1) by (simp add: A_def)
  have l1: "spliceInsert ls p [stmt] = A @ stmt # B"
    by (simp add: spliceInsert_def A_def B_def)
  have nb1: "needsBlank (A @ stmt # B) (int (p + 1) - 1)"
    using assms(2) by (simp add: needsBlank_def lenA nth_append)
  have l2: "spliceInsert (A @ stmt # B) (p + 1) [[]] = A @ stmt # [] # B"
    by (simp add: spliceInsert_def lenA)
  have l3: "spliceInsert (A @ stmt # [] # B) (p + 1) [hc] = A @ stmt # hc # [] # B"
    by (simp add: spliceInsert_def lenA)
  have l4: "spliceInsert (A @ stmt # hc # [] # B) (p + 1 + 1) [cc] = A @ stmt # hc # cc # [] # B"
    by (simp add: spliceInsert_def lenA)
  have "(A @ stmt # hc # cc # [] # B) ! (p + 3) = []"
       "(A @ stmt # hc # cc # [] # B) ! (3 + p) = []"
    by (simp_all add: nth_append lenA)
  then have nb2: "\<not> needsBlank (A @ stmt # hc # cc # [] # B) (int (p + 1) + 2)"
    by (simp add: needsBlank_def lenA trim_def nat_add_distrib)
  show ?thesis
    unfolding insertLines_def Let_def
    by (simp only: if_False if_True not_False_eq_True l1 nb1 l2 l3 l4 nb2)
       (simp add: A_def B_def)
qed

lemma scenario_lines:
  "splitOn 10 scenarioDoc =
     [js ''---'', js ''title: X'', js ''---'', js ''## Hi'', js ''Some *text*.'', []]"
  by (simp add: scenarioDoc_def js_def)

lemma scenario_points:
  "importLineSpec scenarioTree = 3" "componentLineSpec scenarioTree = 3"
  by (simp_all add: importLineSpec_def componentLineSpec_def importEndLines_def
        frontmatterEndLines_def contentStartLines_def esmEndLines_def yamlEndLines_def
        blockStartLines_def scenarioTree_def lineOf_def)

lemma scenario_no_import:
  "\<not> hasImportLine
        [js ''---'', js ''title: X'', js ''---'', js ''## Hi'', js ''Some *text*.'', []]
        (resolveName None)"
  by (simp add: hasImportLine_def resolveName_def defaultComponentName_def js_def)

lemma scenario_inject:
  "injectLines scenarioLibs scenarioDoc (voicesOf scenarioUrl) (js ''deadbeef'') None None =
     Inr [js ''---'', js ''title: X'', js ''---'', importText, hashText, componentText,
          [], js ''## Hi'', js ''Some *text*.'', []]"
proof -
  have parse: "parseMDX scenarioLibs scenarioDoc = Inr scenarioTree"
    by (simp add: scenarioLibs_def tablePlatform_def)
  have comp: "componentCodeOf scenarioLibs (resolveName None) (voicesOf scenarioUrl)
                = componentText"
    by (rule sample_component) (simp add: scenarioLibs_def tablePlatform_def)
  have points: "findInsertionPoints scenarioLibs scenarioDoc = Inr (3, 3)"
    by (simp add: findInsertionPoints_def parse insertionPoints_spec scenario_points)
  have len: "3 \<le> length (splitOn 10 scenarioDoc)"
    by (simp add: scenario_lines)
  have "injectLines scenarioLibs scenarioDoc (voicesOf scenarioUrl) (js ''deadbeef'') None None =
          Inr (insertLines (splitOn 10 scenarioDoc) False 3 3
                 (importStatementOf (resolveName None) (resolveImport None))
                 (hashCommentOf (js ''deadbeef''))
                 (componentCodeOf scenarioLibs (resolveName None) (voicesOf scenarioUrl)))"
    using scenario_no_import
    by (simp add: injectLines_fresh [OF sample_text_absent(3) sample_absent(3)] points
          scenario_lines)
  also have "\<dots> = Inr [js ''---'', js ''title: X'', js ''---'', importText, hashText,
                         componentText, [], js ''## Hi'', js ''Some *text*.'', []]"
    unfolding insertLines_adjacent [OF len trim_importStatement]
    by (simp add: scenario_lines comp sample_import sample_hash)
  finally show ?thesis .
qed

text \<open>
  C2, the code at its failing inputs.  Take a document that parses, holds no narration
  component and no import of it, and whose first content node starts on the line right
  after the import position (the usual case of a heading directly under the front
  matter), or that has no content node.  Injection puts the import statement, the hash
  annotation and the component on consecutive lines; the blank line it adds "before the
  component" ends up after it.
\<close>

theorem inject_adjacent_to_import:
  assumes "\<not> includesStr content (js ''<'' @ resolveName optName)"
    and "hasAudioComponent libs content (resolveName optName) = Inr present"
    and "parseMDX libs content = Inr ast"
    and "\<not> hasImportLine (splitOn 10 content) (resolveName optName)"
    and "componentLineSpec ast = importLineSpec ast"
    and "importLineSpec ast \<le> length (splitOn 10 content)"
  shows "injectLines libs content vs h optImport optName =
           Inr (take (importLineSpec ast) (splitOn 10 content)
                @ [importStatementOf (resolveName optName) (resolveImport optImport),
                   hashCommentOf h, componentCodeOf libs (resolveName optName) vs, []]
                @ drop (importLineSpec ast) (splitOn 10 content))"
proof -
  have points: "findInsertionPoints libs content = Inr (importLineSpec ast, importLineSpec ast)"
    by (simp add: findInsertionPoints_def assms(3) insertionPoints_spec assms(5))
  show ?thesis
    using assms(4)
    by (simp add: injectLines_fresh [OF assms(1,2)] points
          insertLines_adjacent [OF assms(6) trim_importStatement])
qed

theorem inject_adjacent_to_import_witness:
  "injectLines scenarioLibs scenarioDoc (voicesOf scenarioUrl) (js ''deadbeef'') None None =
     Inr (take 3 (splitOn 10 scenarioDoc)
          @ [importStatementOf defaultComponentName defaultComponentImport,
             hashCommentOf (js ''deadbeef''),
             componentCodeOf scenarioLibs defaultComponentName (voicesOf scenarioUrl), []]
          @ drop 3 (splitOn 10 scenarioDoc))"
proof -
  have parse: "parseMDX scenarioLibs scenarioDoc = Inr scenarioTree"
    by (simp add: scenarioLibs_def tablePlatform_def)
  have noimp: "\<not> hasImportLine (splitOn 10 scenarioDoc) (resolveName None)"
    using scenario_no_import by (simp add: scenario_lines)
  have same: "componentLineSpec scenarioTree = importLineSpec scenarioTree"
    by (simp add: scenario_points)
  have len: "importLineSpec scenarioTree \<le> length (splitOn 10 scenarioDoc)"
    by (simp add: scenario_points scenario_lines)
  from inject_adjacent_to_import
         [OF sample_text_absent(3) sample_absent(3) parse noimp same len,
          of "voicesOf scenarioUrl" "js ''deadbeef''" None]
  show ?thesis
    by (simp add: scenario_points resolveName_def resolveImport_def)
qed

section \<open>The second run\<close>

text \<open>
  C3, the code on a second run.  If the written document parses, its extracted text has
  the recorded fingerprint and its block is located with the requested ids, the second
  run skips the document and leaves its bytes and the store alone.  If the parser rejects
  the written document, the second run ends in a failure for it instead of a skip.  The
  document written for the scenario of the specification is of the second kind for a
  parser that requires a blank line after an import block.
\<close>

theorem second_run_outcome:
  "(extractCleanText libs written = Inr text \<and> trim text \<noteq> []
      \<and> extractExistingAudioData libs written (componentName cfg)
          = Inr (Some \<lparr>hash = Some (generateHash libs text),
                       voiceIds = map idValue (configVoiceIds cfg), voices = vs\<rparr>)
      \<longrightarrow> processFile libs cfg st path written = (Inr (ContentUnchanged vs), written, st))
   \<and> (matter libs written = Inr content \<and> parseMDX libs content = Inl e
      \<longrightarrow> processFile libs cfg st path written = (Inl e, written, st))"
proof -
  have skip: "processFile libs cfg st path written = (Inr (ContentUnchanged vs), written, st)"
    if t: "extractCleanText libs written = Inr text" and nb: "trim text \<noteq> []"
      and loc: "extractExistingAudioData libs written (componentName cfg)
          = Inr (Some \<lparr>hash = Some (generateHash libs text),
                       voiceIds = map idValue (configVoiceIds cfg), voices = vs\<rparr>)"
  proof -
    have "isUnchanged (Some \<lparr>hash = Some (generateHash libs text),
                                voiceIds = map idValue (configVoiceIds cfg), voices = vs\<rparr>)
            (generateHash libs text) (configVoiceIds cfg)"
      by (simp add: isUnchanged_def voicesMatch_iff)
    with processFile_located [OF t nb loc, of st path] show ?thesis
      by simp
  qed
  have fail: "processFile libs cfg st path written = (Inl e, written, st)"
    if "matter libs written = Inr content" and "parseMDX libs content = Inl e"
    using that by (simp add: processFile_def extractCleanText_def)
  from skip fail show ?thesis
    by blast
qed

lemma scenario_written:
  "injectAudioComponent scenarioLibs scenarioDoc (voicesOf scenarioUrl) (js ''deadbeef'')
     None None = Inr scenarioInjected"
  by (simp add: injectAudioComponent_def scenario_inject scenarioInjected_def)

theorem second_run_outcome_witness:
  "injectAudioComponent scenarioLibs scenarioDoc (voicesOf scenarioUrl) (js ''deadbeef'')
     None None = Inr scenarioInjected
   \<and> processFile scenarioLibs sampleConfig emptyStore (js ''hi.mdx'') scenarioInjected
       = (Inl MdxSyntaxError, scenarioInjected, emptyStore)
   \<and> processFile blockLibs pairConfig emptyStore (js ''a.mdx'') blockDoc
       = (Inr (ContentUnchanged (map jsonOfVoice twoVoices)), blockDoc, emptyStore)"
proof -
  have differs: "scenarioInjected \<noteq> scenarioDoc"
    by (simp add: scenarioInjected_def scenarioDoc_def js_def)
  have m: "matter scenarioLibs scenarioInjected = Inr scenarioInjected"
    by (simp add: scenarioLibs_def tablePlatform_def)
  have p: "parseMDX scenarioLibs scenarioInjected = Inl MdxSyntaxError"
    using differs by (simp add: scenarioLibs_def tablePlatform_def)
  from second_run_outcome
         [of scenarioLibs scenarioInjected "[]" sampleConfig "[]" emptyStore "js ''hi.mdx''"
             scenarioInjected MdxSyntaxError]
  have rejected: "processFile scenarioLibs sampleConfig emptyStore (js ''hi.mdx'') scenarioInjected
                    = (Inl MdxSyntaxError, scenarioInjected, emptyStore)"
    using m p by blast
  have name: "componentName pairConfig = js ''AudioTranscript''"
    by (simp add: pairConfig_def sampleConfig_def defaultComponentName_def)
  have located: "extractExistingAudioData blockLibs blockDoc (componentName pairConfig)
          = Inr (Some \<lparr>hash = Some (generateHash blockLibs (js ''Hello'')),
                       voiceIds = map idValue (configVoiceIds pairConfig),
                       voices = map jsonOfVoice twoVoices\<rparr>)"
    by (simp add: name block_located block_hash) (simp add: pairConfig_def)
  from second_run_outcome
         [of blockLibs blockDoc "js ''Hello''" pairConfig "map jsonOfVoice twoVoices"
             emptyStore "js ''a.mdx''" blockDoc MdxSyntaxError]
  have skipped: "processFile blockLibs pairConfig emptyStore (js ''a.mdx'') blockDoc
                   = (Inr (ContentUnchanged (map jsonOfVoice twoVoices)), blockDoc, emptyStore)"
    using block_text hello_nonblank located by blast
  from scenario_written rejected skipped show ?thesis
    by blast
qed

end
